theory Spec2Isabelle
  imports Complex_Main "HOL-Library.Multiset"
begin

section \<open>Data model\<close>

text \<open>
  The fraud-prevention service of \<^verbatim>\<open>backend/src/services/FraudPreventionService.ts\<close>
  reads the offer-wall transaction ledger and the user accounts (MongoDB) and reads and
  writes an expiring key-value store (Redis). Instants are milliseconds since the epoch
  (\<^verbatim>\<open>Date.now()\<close>, \<^verbatim>\<open>createdAt.getTime()\<close>), amounts are in minor units.
\<close>

datatype status = Pending | Completed | Failed

record txn =
  externalTransactionId :: string
  userId :: string
  providerId :: string
  convertedAmount :: int
  status :: status
  createdAt :: int

record user =
  user_id :: string
  user_createdAt :: int

datatype action = Allow | Flag | Block

record FraudCheckResult =
  isFraudulent :: bool
  reasons :: "string list"
  riskScore :: int
  action :: action

record UserActivityPattern =
  patternUserId :: string
  completionsLast24h :: nat
  completionsLastHour :: nat
  avgCompletionTime :: rat
  uniqueProviders :: nat
  suspiciousPatterns :: "string list"

text \<open>The three result shapes with optional fields: \<^verbatim>\<open>{ isDuplicate, reason? }\<close>,
  \<^verbatim>\<open>{ allowed, reason?, retryAfter? }\<close> and \<^verbatim>\<open>{ suspicious, reason? }\<close>.\<close>

record DuplicateResult =
  isDuplicate :: bool
  dupReason :: "string option"

record GateResult =
  allowed :: bool
  reason :: "string option"
  retryAfter :: "int option"

record IPResult =
  suspicious :: bool
  ipReason :: "string option"

text \<open>The documents the service keeps in the key-value store. The source stores them as
  JSON text (\<^verbatim>\<open>JSON.stringify\<close>) and reads them back with \<^verbatim>\<open>JSON.parse\<close>; a stored text
  is represented by the document it encodes. \<open>flaggedAt\<close> and \<open>lastSeen\<close> are kept as
  instants instead of their ISO rendering.\<close>

datatype doc =
  FlagDoc string string int
| IPDoc "string list" nat int

datatype exn = StoreError | TypeError

text \<open>
  The world a call runs in: the ledger in its natural order, the accounts, the key-value
  store (each entry with the instant at which it expires), the instant of the call (every
  clock read of one call returns it), and the outcomes of the awaited collaborator calls
  to come, in program order (\<open>True\<close>: that call throws; past the end of the list no call
  throws). A computation takes a world and returns a value or the exception thrown,
  together with the world it leaves.
\<close>

record world =
  ledger :: "txn list"
  accounts :: "user list"
  kv :: "string \<rightharpoonup> doc \<times> int"
  now :: int
  faults :: "bool list"

type_synonym 'a io = "world \<Rightarrow> (exn + 'a) \<times> world"

definition io_return :: "'a \<Rightarrow> 'a io" where
  "io_return a w = (Inr a, w)"

definition io_throw :: "exn \<Rightarrow> 'a io" where
  "io_throw e w = (Inl e, w)"

definition io_bind :: "'a io \<Rightarrow> ('a \<Rightarrow> 'b io) \<Rightarrow> 'b io" where
  "io_bind m f w = (case m w of (Inl e, w') \<Rightarrow> (Inl e, w') | (Inr a, w') \<Rightarrow> f a w')"

text \<open>\<^verbatim>\<open>try { m } catch (error) { h }\<close>\<close>

definition io_catch :: "'a io \<Rightarrow> (exn \<Rightarrow> 'a io) \<Rightarrow> 'a io" where
  "io_catch m h w = (case m w of (Inl e, w') \<Rightarrow> h e w' | (Inr a, w') \<Rightarrow> (Inr a, w'))"

text \<open>\<^verbatim>\<open>Date.now()\<close>\<close>

definition date_now :: "int io" where
  "date_now w = (Inr (now w), w)"

section \<open>Collaborators\<close>

text \<open>An awaited read of a collaborator: it takes the next outcome of \<open>faults\<close> and either
  throws or answers the query on the current world.\<close>

definition await_read :: "(world \<Rightarrow> 'a) \<Rightarrow> 'a io" where
  "await_read q w =
     (case faults w of
        [] \<Rightarrow> (Inr (q w), w)
      | f # fs \<Rightarrow> (if f then (Inl StoreError, w\<lparr>faults := fs\<rparr>)
                  else (Inr (q w), w\<lparr>faults := fs\<rparr>)))"

text \<open>\<^verbatim>\<open>.sort({ createdAt: -1 })\<close>: newest first.\<close>

definition sortNewestFirst :: "txn list \<Rightarrow> txn list" where
  "sortNewestFirst ts = sort_key (\<lambda>t. - createdAt t) ts"

text \<open>Modelled from the spec: \<^verbatim>\<open>OfferWallTransaction.findByExternalId\<close>, a static of the
  model file, which is not among the sources; the spec's ledger contract is
  \<^verbatim>\<open>findByExternalId(id) -> LedgerRecord?\<close>, a point lookup by external transaction id.\<close>

definition findByExternalId :: "string \<Rightarrow> txn option io" where
  "findByExternalId eid = await_read (\<lambda>w. find (\<lambda>t. externalTransactionId t = eid) (ledger w))"

text \<open>\<^verbatim>\<open>OfferWallTransaction.findOne(filter)\<close>, \<^verbatim>\<open>.countDocuments(filter)\<close>,
  \<^verbatim>\<open>.find(filter).sort({ createdAt: -1 })\<close>, \<^verbatim>\<open>.findOne(filter).sort({ createdAt: -1 })\<close>
  and \<^verbatim>\<open>User.findById\<close>, with the filter as a predicate.\<close>

definition findOne :: "(txn \<Rightarrow> bool) \<Rightarrow> txn option io" where
  "findOne P = await_read (\<lambda>w. find P (ledger w))"

definition countDocuments :: "(txn \<Rightarrow> bool) \<Rightarrow> nat io" where
  "countDocuments P = await_read (\<lambda>w. length (filter P (ledger w)))"

definition findSorted :: "(txn \<Rightarrow> bool) \<Rightarrow> txn list io" where
  "findSorted P = await_read (\<lambda>w. sortNewestFirst (filter P (ledger w)))"

definition findOneSorted :: "(txn \<Rightarrow> bool) \<Rightarrow> txn option io" where
  "findOneSorted P =
     await_read (\<lambda>w. case sortNewestFirst (filter P (ledger w)) of [] \<Rightarrow> None | t # _ \<Rightarrow> Some t)"

definition findUserById :: "string \<Rightarrow> user option io" where
  "findUserById uid = await_read (\<lambda>w. find (\<lambda>u. user_id u = uid) (accounts w))"

text \<open>Modelled from the spec: the Redis wrapper \<^verbatim>\<open>config/redis-wrapper.js\<close> is not among
  the sources; the spec asks of the expiring key-value store set-with-TTL (in seconds) and
  get. An entry is live strictly before its expiry instant.\<close>

definition live :: "world \<Rightarrow> string \<Rightarrow> doc option" where
  "live w k = (case kv w k of None \<Rightarrow> None
               | Some (d, expiry) \<Rightarrow> if now w < expiry then Some d else None)"

text \<open>Modelled from the spec: \<^verbatim>\<open>redis.get(key)\<close> of the absent wrapper, the live entry
  under the key or nothing; the call may throw.\<close>

definition redis_get :: "string \<Rightarrow> doc option io" where
  "redis_get k = await_read (\<lambda>w. live w k)"

text \<open>Modelled from the spec: \<^verbatim>\<open>redis.setex(key, seconds, value)\<close> of the absent wrapper,
  set-with-TTL: the entry replaces any earlier one and expires \<open>seconds\<close> after the instant
  of the call; the call may throw, and then writes nothing.\<close>

definition redis_setex :: "string \<Rightarrow> int \<Rightarrow> doc \<Rightarrow> unit io" where
  "redis_setex k ttl d w =
     (case faults w of
        [] \<Rightarrow> (Inr (), w\<lparr>kv := (kv w)(k \<mapsto> (d, now w + ttl * 1000))\<rparr>)
      | f # fs \<Rightarrow> (if f then (Inl StoreError, w\<lparr>faults := fs\<rparr>)
                  else (Inr (), w\<lparr>faults := fs, kv := (kv w)(k \<mapsto> (d, now w + ttl * 1000))\<rparr>)))"

section \<open>Text helpers\<close>

text \<open>The decimal rendering of a count in a template literal, and \<^verbatim>\<open>Array.join\<close>.\<close>

definition digit :: "nat \<Rightarrow> char" where
  "digit d = ''0123456789'' ! d"

fun showNat :: "nat \<Rightarrow> string" where
  "showNat n = (if n < 10 then [digit n] else showNat (n div 10) @ [digit (n mod 10)])"

declare showNat.simps [simp del]

fun joinWith :: "string \<Rightarrow> string list \<Rightarrow> string" where
  "joinWith sep [] = []"
| "joinWith sep [x] = x"
| "joinWith sep (x # y # ys) = x @ sep @ joinWith sep (y # ys)"

section \<open>The service\<close>

definition RATE_LIMIT_HOUR :: nat where "RATE_LIMIT_HOUR = 20"
definition RATE_LIMIT_DAY :: nat where "RATE_LIMIT_DAY = 100"
definition MIN_COMPLETION_TIME :: int where "MIN_COMPLETION_TIME = 30"
definition HIGH_RISK_THRESHOLD :: int where "HIGH_RISK_THRESHOLD = 70"
definition MEDIUM_RISK_THRESHOLD :: int where "MEDIUM_RISK_THRESHOLD = 40"

definition checkDuplicate :: "string \<Rightarrow> string \<Rightarrow> int \<Rightarrow> string \<Rightarrow> DuplicateResult io" where
  "checkDuplicate eid uid amount pid =
     io_bind (findByExternalId eid) (\<lambda>existingById.
       if existingById \<noteq> None
       then io_return \<lparr>isDuplicate = True, dupReason = Some ''Transaction ID already exists''\<rparr>
       else
         io_bind date_now (\<lambda>t.
         let oneMinuteAgo = t - 60 * 1000 in
         io_bind (findOne (\<lambda>r. userId r = uid \<and> providerId r = pid \<and>
                               convertedAmount r = amount \<and> createdAt r \<ge> oneMinuteAgo))
           (\<lambda>recentSimilar.
             if recentSimilar \<noteq> None
             then io_return \<lparr>isDuplicate = True,
                              dupReason = Some ''Similar transaction within 1 minute''\<rparr>
             else io_return \<lparr>isDuplicate = False, dupReason = None\<rparr>)))"

definition checkRateLimit :: "string \<Rightarrow> GateResult io" where
  "checkRateLimit uid =
     io_bind date_now (\<lambda>t.
     let hourAgo = t - 60 * 60 * 1000; dayAgo = t - 24 * 60 * 60 * 1000 in
     io_bind (countDocuments (\<lambda>r. userId r = uid \<and> status r = Completed \<and> createdAt r \<ge> hourAgo))
       (\<lambda>hourlyCount.
         if hourlyCount \<ge> RATE_LIMIT_HOUR
         then io_return \<lparr>allowed = False,
                reason = Some (''Rate limit exceeded: '' @ showNat hourlyCount @ ''/'' @
                               showNat RATE_LIMIT_HOUR @ '' per hour''),
                retryAfter = Some 3600\<rparr>
         else
           io_bind (countDocuments (\<lambda>r. userId r = uid \<and> status r = Completed \<and> createdAt r \<ge> dayAgo))
             (\<lambda>dailyCount.
               if dailyCount \<ge> RATE_LIMIT_DAY
               then io_return \<lparr>allowed = False,
                      reason = Some (''Daily limit exceeded: '' @ showNat dailyCount @ ''/'' @
                                     showNat RATE_LIMIT_DAY @ '' per day''),
                      retryAfter = Some 86400\<rparr>
               else io_return \<lparr>allowed = True, reason = None, retryAfter = None\<rparr>)))"

definition checkCompletionCooldown :: "string \<Rightarrow> GateResult io" where
  "checkCompletionCooldown uid =
     io_bind (findOneSorted (\<lambda>r. userId r = uid \<and> status r = Completed)) (\<lambda>lastCompletion.
       case lastCompletion of
         None \<Rightarrow> io_return \<lparr>allowed = True, reason = None, retryAfter = None\<rparr>
       | Some lc \<Rightarrow>
           io_bind date_now (\<lambda>t.
           let timeSinceLastCompletion = (of_int (t - createdAt lc) :: rat) / 1000 in
           if timeSinceLastCompletion < of_int MIN_COMPLETION_TIME
           then io_return \<lparr>allowed = False,
                  reason = Some (''Cooldown period: '' @ showNat (nat MIN_COMPLETION_TIME) @
                                 ''s between completions''),
                  retryAfter = Some \<lceil>of_int MIN_COMPLETION_TIME - timeSinceLastCompletion\<rceil>\<rparr>
           else io_return \<lparr>allowed = True, reason = None, retryAfter = None\<rparr>))"

text \<open>The loop of \<^verbatim>\<open>analyzeUserActivity\<close> over consecutive pairs
  \<^verbatim>\<open>recentTransactions[i]\<close>, \<^verbatim>\<open>recentTransactions[i + 1]\<close>, with its two accumulators.\<close>

fun gapLoop :: "txn list \<Rightarrow> int \<Rightarrow> nat \<Rightarrow> int \<times> nat" where
  "gapLoop (a # b # rest) totalTimeBetween completionPairs =
     gapLoop (b # rest) (totalTimeBetween + (createdAt a - createdAt b)) (completionPairs + 1)"
| "gapLoop [a] totalTimeBetween completionPairs = (totalTimeBetween, completionPairs)"
| "gapLoop [] totalTimeBetween completionPairs = (totalTimeBetween, completionPairs)"

text \<open>The body of \<^verbatim>\<open>analyzeUserActivity\<close> after the fetch of \<open>recentTransactions\<close>. The
  quotients and the product with \<^verbatim>\<open>0.8\<close> are exact rationals: the source computes them on
  doubles from integers (instants in milliseconds, counts), and the comparisons with 30, 60
  and the count come out the same.\<close>

definition activityPattern :: "string \<Rightarrow> int \<Rightarrow> txn list \<Rightarrow> UserActivityPattern" where
  "activityPattern uid hourAgo recentTransactions =
     (let completionsLast24h = length recentTransactions;
          completionsLastHour = length (filter (\<lambda>t. createdAt t \<ge> hourAgo) recentTransactions);
          totalTimeBetween = fst (gapLoop recentTransactions 0 0);
          completionPairs = snd (gapLoop recentTransactions 0 0);
          avgCompletionTime =
            (if completionPairs > 0
             then (of_int totalTimeBetween :: rat) / of_nat completionPairs / 1000 else 0);
          uniqueProviders = length (remdups (map providerId recentTransactions));
          p1 = (if completionsLastHour > 10 then [''High completion rate (>10/hour)''] else []);
          p2 = (if avgCompletionTime < 60 \<and> completionPairs > 5
                then [''Unusually fast completions (<60s avg)''] else []);
          p3 = (if uniqueProviders = 1 \<and> completionsLast24h > 20
                then [''Single provider focus (>20 completions)''] else []);
          roundAmounts = length (filter (\<lambda>t. convertedAmount t mod 100 = 0) recentTransactions);
          p4 = (if (of_nat roundAmounts :: rat) > of_nat completionsLast24h * (8 / 10)
                   \<and> completionsLast24h > 10
                then [''Mostly round amounts (possible testing)''] else [])
      in \<lparr>patternUserId = uid,
          completionsLast24h = completionsLast24h,
          completionsLastHour = completionsLastHour,
          avgCompletionTime = avgCompletionTime,
          uniqueProviders = uniqueProviders,
          suspiciousPatterns = p1 @ p2 @ p3 @ p4\<rparr>)"

definition analyzeUserActivity :: "string \<Rightarrow> UserActivityPattern io" where
  "analyzeUserActivity uid =
     io_bind date_now (\<lambda>t.
     let hourAgo = t - 60 * 60 * 1000; dayAgo = t - 24 * 60 * 60 * 1000 in
     io_bind (findSorted (\<lambda>r. userId r = uid \<and> createdAt r \<ge> dayAgo)) (\<lambda>recentTransactions.
       io_return (activityPattern uid hourAgo recentTransactions)))"

text \<open>The body of \<^verbatim>\<open>calculateRiskScore\<close> on the activity, the account found (if any) and
  the instant read for the account age.\<close>

definition riskScoreOf :: "UserActivityPattern \<Rightarrow> user option \<Rightarrow> int \<Rightarrow> int" where
  "riskScoreOf activity usr t =
     (let s1 = (if completionsLastHour activity > 15 then 30
                else if completionsLastHour activity > 10 then 15 else 0);
          s2 = s1 + (if avgCompletionTime activity < 30 then 40
                     else if avgCompletionTime activity < 60 then 20 else 0);
          s3 = s2 + (if uniqueProviders activity = 1 \<and> completionsLast24h activity > 20
                     then 25 else 0);
          s4 = s3 + int (length (suspiciousPatterns activity)) * 10;
          s5 = (case usr of
                  None \<Rightarrow> s4
                | Some u \<Rightarrow>
                    let accountAge = t - user_createdAt u;
                        daysSinceCreation = (of_int accountAge :: rat) / (1000 * 60 * 60 * 24)
                    in if daysSinceCreation < 7 \<and> completionsLast24h activity > 30
                       then s4 + 20 else s4)
      in min s5 100)"

definition calculateRiskScore :: "string \<Rightarrow> int io" where
  "calculateRiskScore uid =
     io_bind (analyzeUserActivity uid) (\<lambda>activity.
     io_bind (findUserById uid) (\<lambda>usr.
     io_bind date_now (\<lambda>t.
       io_return (riskScoreOf activity usr t))))"

definition flagUserForReview :: "string \<Rightarrow> string \<Rightarrow> unit io" where
  "flagUserForReview uid why =
     io_catch
       (io_bind date_now (\<lambda>t.
          redis_setex (''fraud:flagged:'' @ uid) (86400 * 7) (FlagDoc uid why t)))
       (\<lambda>error. io_return ())"

text \<open>\<^verbatim>\<open>reasons.push(check.reason!)\<close>: the reason is present whenever it is pushed
  (lemmas \<open>checkDuplicate_Inr\<close>, \<open>checkRateLimit_reason\<close>, \<open>checkCompletionCooldown_reason\<close>).\<close>

definition pushReason :: "string list \<Rightarrow> string option \<Rightarrow> string list" where
  "pushReason rs r = (case r of Some s \<Rightarrow> rs @ [s] | None \<Rightarrow> rs)"

definition checkForFraud :: "string \<Rightarrow> string \<Rightarrow> int \<Rightarrow> string \<Rightarrow> FraudCheckResult io" where
  "checkForFraud uid eid amount pid =
     io_bind (checkDuplicate eid uid amount pid) (\<lambda>duplicateCheck.
     let reasons1 = (if isDuplicate duplicateCheck
                     then pushReason [] (dupReason duplicateCheck) else []);
         riskScore1 = (if isDuplicate duplicateCheck then 0 + 100 else 0) in
     io_bind (checkRateLimit uid) (\<lambda>rateLimitCheck.
     let reasons2 = (if \<not> allowed rateLimitCheck
                     then pushReason reasons1 (reason rateLimitCheck) else reasons1);
         riskScore2 = (if \<not> allowed rateLimitCheck then riskScore1 + 50 else riskScore1) in
     io_bind (checkCompletionCooldown uid) (\<lambda>cooldownCheck.
     let reasons3 = (if \<not> allowed cooldownCheck
                     then pushReason reasons2 (reason cooldownCheck) else reasons2);
         riskScore3 = (if \<not> allowed cooldownCheck then riskScore2 + 30 else riskScore2) in
     io_bind (calculateRiskScore uid) (\<lambda>userRiskScore.
     let riskScore4 = max riskScore3 userRiskScore in
     io_bind (analyzeUserActivity uid) (\<lambda>activity.
     let reasons4 = (if length (suspiciousPatterns activity) > 0
                     then reasons3 @ suspiciousPatterns activity else reasons3);
         act = (if riskScore4 \<ge> HIGH_RISK_THRESHOLD then Block
                else if riskScore4 \<ge> MEDIUM_RISK_THRESHOLD then Flag else Allow);
         fraudulent = (act = Block) in
     io_bind (if act = Block then flagUserForReview uid (joinWith '', '' reasons4)
              else io_return ()) (\<lambda>_.
       io_return \<lparr>isFraudulent = fraudulent, reasons = reasons4,
                   riskScore = riskScore4, action = act\<rparr>))))))"

definition isUserFlagged :: "string \<Rightarrow> bool io" where
  "isUserFlagged uid =
     io_catch
       (io_bind (redis_get (''fraud:flagged:'' @ uid)) (\<lambda>flagged.
          io_return (flagged \<noteq> None)))
       (\<lambda>error. io_return False)"

text \<open>\<^verbatim>\<open>data ? JSON.parse(data) : { users: [], count: 0 }\<close>, read at \<open>users\<close> and \<open>count\<close>; on a
  document without a \<open>users\<close> array \<^verbatim>\<open>ipData.users.includes\<close> throws a TypeError.\<close>

definition ipDataOf :: "doc option \<Rightarrow> (string list \<times> nat) io" where
  "ipDataOf data =
     (case data of
        None \<Rightarrow> io_return ([], 0)
      | Some (IPDoc us c seen) \<Rightarrow> io_return (us, c)
      | Some (FlagDoc u r f) \<Rightarrow> io_throw TypeError)"

definition trackIPAddress :: "string \<Rightarrow> string \<Rightarrow> IPResult io" where
  "trackIPAddress ipAddress uid =
     io_catch
       (io_bind (redis_get (''fraud:ip:'' @ ipAddress)) (\<lambda>data.
        io_bind (ipDataOf data) (\<lambda>ipData.
        let users1 = (if uid \<notin> set (fst ipData) then fst ipData @ [uid] else fst ipData);
            count1 = snd ipData + 1 in
        io_bind date_now (\<lambda>lastSeen.
        io_bind (redis_setex (''fraud:ip:'' @ ipAddress) 86400 (IPDoc users1 count1 lastSeen)) (\<lambda>_.
          if length users1 > 5
          then io_return \<lparr>suspicious = True,
                 ipReason = Some (''Multiple users ('' @ showNat (length users1) @
                                  '') from same IP'')\<rparr>
          else if count1 > 100
          then io_return \<lparr>suspicious = True,
                 ipReason = Some (''High request count ('' @ showNat count1 @ '') from IP'')\<rparr>
          else io_return \<lparr>suspicious = False, ipReason = None\<rparr>)))))
       (\<lambda>error. io_return \<lparr>suspicious = False, ipReason = None\<rparr>)"

section \<open>Vocabulary of the statements\<close>

text \<open>The world after one awaited call that did not throw: its outcome is consumed.\<close>

definition advance :: "world \<Rightarrow> world" where
  "advance w = w\<lparr>faults := tl (faults w)\<rparr>"

text \<open>The number of completed records of a user created at or after an instant.\<close>

definition countCompleted :: "world \<Rightarrow> string \<Rightarrow> int \<Rightarrow> nat" where
  "countCompleted w uid since =
     length (filter (\<lambda>r. userId r = uid \<and> status r = Completed \<and> createdAt r \<ge> since) (ledger w))"

text \<open>\<open>lc\<close> is a completed record of the user and none of the user's completed records is
  newer; its age in seconds at the instant of the call.\<close>

definition mostRecentCompleted :: "world \<Rightarrow> string \<Rightarrow> txn \<Rightarrow> bool" where
  "mostRecentCompleted w uid lc \<longleftrightarrow>
     lc \<in> set (ledger w) \<and> userId lc = uid \<and> status lc = Completed \<and>
     (\<forall>r \<in> set (ledger w). userId r = uid \<and> status r = Completed \<longrightarrow> createdAt r \<le> createdAt lc)"

definition elapsedSeconds :: "world \<Rightarrow> txn \<Rightarrow> rat" where
  "elapsedSeconds w lc = of_int (now w - createdAt lc) / 1000"

text \<open>The records \<^verbatim>\<open>analyzeUserActivity\<close> fetches: every record of the user created within
  the last 24 hours, newest first.\<close>

definition recentWindow :: "world \<Rightarrow> string \<Rightarrow> txn list" where
  "recentWindow w uid =
     sortNewestFirst (filter (\<lambda>r. userId r = uid \<and> now w - 86400000 \<le> createdAt r) (ledger w))"

text \<open>The window in the spec's words: up to the last 100 completed records of the user
  within the last 24 hours, newest first.\<close>

definition recentCompleted_spec :: "world \<Rightarrow> string \<Rightarrow> txn list" where
  "recentCompleted_spec w uid =
     take 100 (sortNewestFirst
       (filter (\<lambda>r. userId r = uid \<and> status r = Completed \<and> now w - 86400000 \<le> createdAt r)
          (ledger w)))"

definition fastLabel :: string where
  "fastLabel = ''Unusually fast completions (<60s avg)''"

text \<open>The condition of the fast-completions label in the spec's words: an average below
  60 seconds and at least 6 records.\<close>

definition fastLabel_spec :: "UserActivityPattern \<Rightarrow> bool" where
  "fastLabel_spec a \<longleftrightarrow> avgCompletionTime a < 60 \<and> 6 \<le> completionsLast24h a"

text \<open>The summands of \<^verbatim>\<open>calculateRiskScore\<close>, one per signal.\<close>

definition rateTerm :: "nat \<Rightarrow> int" where
  "rateTerm n = (if n > 15 then 30 else if n > 10 then 15 else 0)"

definition speedTerm :: "rat \<Rightarrow> int" where
  "speedTerm x = (if x < 30 then 40 else if x < 60 then 20 else 0)"

definition focusTerm :: "nat \<Rightarrow> nat \<Rightarrow> int" where
  "focusTerm providers n = (if providers = 1 \<and> n > 20 then 25 else 0)"

definition ageTerm :: "user option \<Rightarrow> int \<Rightarrow> nat \<Rightarrow> int" where
  "ageTerm usr t n =
     (case usr of None \<Rightarrow> 0
      | Some u \<Rightarrow> if (of_int (t - user_createdAt u) :: rat) / (1000 * 60 * 60 * 24) < 7 \<and> n > 30
                  then 20 else 0)"

text \<open>The key of an address in the store, a sequence of \<^verbatim>\<open>trackIPAddress\<close> calls for one
  address, each with its user and its instant, run one after the other, and the answer of
  the tracker for a record of \<open>n\<close> users below the request ceiling.\<close>

definition ipKey :: "string \<Rightarrow> string" where
  "ipKey ip = ''fraud:ip:'' @ ip"

fun trackCalls :: "string \<Rightarrow> (string \<times> int) list \<Rightarrow> world \<Rightarrow> (exn + IPResult) list \<times> world" where
  "trackCalls ip [] w = ([], w)"
| "trackCalls ip ((uid, t) # calls) w =
     (case trackIPAddress ip uid (w\<lparr>now := t\<rparr>) of
        (r, w') \<Rightarrow> (case trackCalls ip calls w' of (rs, w'') \<Rightarrow> (r # rs, w'')))"

definition ipVerdict :: "nat \<Rightarrow> IPResult" where
  "ipVerdict n =
     (if n > 5
      then \<lparr>suspicious = True,
            ipReason = Some (''Multiple users ('' @ showNat n @ '') from same IP'')\<rparr>
      else \<lparr>suspicious = False, ipReason = None\<rparr>)"

text \<open>The key of a user's flag in the store.\<close>

definition flagKey :: "string \<Rightarrow> string" where
  "flagKey uid = ''fraud:flagged:'' @ uid"

text \<open>Two worlds with the same ledger, accounts, store and instant, the second having
  consumed some of the outcomes of the first; computations that only read; and
  computations that return a value whenever no collaborator call throws.\<close>

definition sameData :: "world \<Rightarrow> world \<Rightarrow> bool" where
  "sameData w w' \<longleftrightarrow>
     ledger w' = ledger w \<and> accounts w' = accounts w \<and> kv w' = kv w \<and> now w' = now w
     \<and> set (faults w') \<subseteq> set (faults w)"

definition readonly :: "'a io \<Rightarrow> bool" where
  "readonly m \<longleftrightarrow> (\<forall>w. sameData w (snd (m w)))"

definition returns :: "'a io \<Rightarrow> bool" where
  "returns m \<longleftrightarrow>
     (\<forall>w. True \<notin> set (faults w) \<longrightarrow> (\<exists>a. fst (m w) = Inr a) \<and> True \<notin> set (faults (snd (m w))))"

text \<open>The decision of \<^verbatim>\<open>checkForFraud\<close> from the results of its five checks: the
  statements of the function between and after its awaited calls.\<close>

definition fraudVerdict ::
  "DuplicateResult \<Rightarrow> GateResult \<Rightarrow> GateResult \<Rightarrow> int \<Rightarrow> UserActivityPattern \<Rightarrow> FraudCheckResult" where
  "fraudVerdict duplicateCheck rateLimitCheck cooldownCheck userRiskScore activity =
     (let reasons1 = (if isDuplicate duplicateCheck
                      then pushReason [] (dupReason duplicateCheck) else []);
          riskScore1 = (if isDuplicate duplicateCheck then 0 + 100 else 0);
          reasons2 = (if \<not> allowed rateLimitCheck
                      then pushReason reasons1 (reason rateLimitCheck) else reasons1);
          riskScore2 = (if \<not> allowed rateLimitCheck then riskScore1 + 50 else riskScore1);
          reasons3 = (if \<not> allowed cooldownCheck
                      then pushReason reasons2 (reason cooldownCheck) else reasons2);
          riskScore3 = (if \<not> allowed cooldownCheck then riskScore2 + 30 else riskScore2);
          riskScore4 = max riskScore3 userRiskScore;
          reasons4 = (if length (suspiciousPatterns activity) > 0
                      then reasons3 @ suspiciousPatterns activity else reasons3);
          act = (if riskScore4 \<ge> HIGH_RISK_THRESHOLD then Block
                 else if riskScore4 \<ge> MEDIUM_RISK_THRESHOLD then Flag else Allow)
      in \<lparr>isFraudulent = (act = Block), reasons = reasons4, riskScore = riskScore4, action = act\<rparr>)"

text \<open>Computations whose awaited calls, when they return a value, have consumed only
  outcomes that did not throw.\<close>

definition quietReads :: "'a io \<Rightarrow> bool" where
  "quietReads m \<longleftrightarrow>
     (\<forall>w a w'. m w = (Inr a, w') \<longrightarrow> (\<exists>pre. faults w = pre @ faults w' \<and> True \<notin> set pre))"

text \<open>\<^verbatim>\<open>checkForFraud\<close> up to its decision, before the write of the flag: the five checks
  and the decision taken from their results (lemma \<open>checkForFraud_checks\<close>).\<close>

definition fraudChecks :: "string \<Rightarrow> string \<Rightarrow> int \<Rightarrow> string \<Rightarrow> FraudCheckResult io" where
  "fraudChecks uid eid amount pid =
     io_bind (checkDuplicate eid uid amount pid) (\<lambda>duplicateCheck.
     io_bind (checkRateLimit uid) (\<lambda>rateLimitCheck.
     io_bind (checkCompletionCooldown uid) (\<lambda>cooldownCheck.
     io_bind (calculateRiskScore uid) (\<lambda>userRiskScore.
     io_bind (analyzeUserActivity uid) (\<lambda>activity.
       io_return (fraudVerdict duplicateCheck rateLimitCheck cooldownCheck userRiskScore
                    activity))))))"

section \<open>Example worlds\<close>

text \<open>One completion of user \<open>u1\<close>, ten seconds old, whose external id \<open>tx1\<close> is replayed.\<close>

definition replayWorld :: world where
  "replayWorld =
     \<lparr>ledger = [\<lparr>externalTransactionId = ''tx1'', userId = ''u1'', providerId = ''p1'',
                 convertedAmount = 500, status = Completed, createdAt = 1000000\<rparr>],
      accounts = [\<lparr>user_id = ''u1'', user_createdAt = 0\<rparr>],
      kv = Map.empty, now = 1010000, faults = []\<rparr>"

text \<open>Twenty completions of \<open>u1\<close>, 31 seconds apart, all within the last hour.\<close>

definition busyWorld :: world where
  "busyWorld =
     \<lparr>ledger = map (\<lambda>i. \<lparr>externalTransactionId = ''tx'' @ showNat i, userId = ''u1'',
                          providerId = ''p1'', convertedAmount = 500, status = Completed,
                          createdAt = 1000000 + 31000 * int i\<rparr>) [0..<20],
      accounts = [\<lparr>user_id = ''u1'', user_createdAt = 0\<rparr>],
      kv = Map.empty, now = 1620000, faults = []\<rparr>"

text \<open>A hundred completions of \<open>u1\<close>, ten minutes apart: six of them in the last hour.\<close>

definition dailyWorld :: world where
  "dailyWorld =
     \<lparr>ledger = map (\<lambda>i. \<lparr>externalTransactionId = ''tx'' @ showNat i, userId = ''u1'',
                          providerId = ''p1'', convertedAmount = 500, status = Completed,
                          createdAt = 1000000 + 600000 * int i\<rparr>) [0..<100],
      accounts = [\<lparr>user_id = ''u1'', user_createdAt = 0\<rparr>],
      kv = Map.empty, now = 61000000, faults = []\<rparr>"

text \<open>A live flag for \<open>u1\<close> while the next call to the store throws.\<close>

definition flaggedOutage :: world where
  "flaggedOutage =
     \<lparr>ledger = [], accounts = [],
      kv = [''fraud:flagged:u1'' \<mapsto> (FlagDoc ''u1'' ''Transaction ID already exists'' 1000000, 605800000)],
      now = 1010000, faults = [True]\<rparr>"

text \<open>Completions of \<open>u1\<close> 30 and 10 seconds ago and a failed record one second ago.\<close>

definition cooldownWorld :: world where
  "cooldownWorld =
     \<lparr>ledger = [\<lparr>externalTransactionId = ''tx1'', userId = ''u1'', providerId = ''p1'',
                 convertedAmount = 500, status = Completed, createdAt = 1000000\<rparr>,
                \<lparr>externalTransactionId = ''tx2'', userId = ''u1'', providerId = ''p1'',
                 convertedAmount = 300, status = Completed, createdAt = 1020000\<rparr>,
                \<lparr>externalTransactionId = ''tx3'', userId = ''u1'', providerId = ''p1'',
                 convertedAmount = 300, status = Failed, createdAt = 1029000\<rparr>],
      accounts = [\<lparr>user_id = ''u1'', user_createdAt = 0\<rparr>],
      kv = Map.empty, now = 1030000, faults = []\<rparr>"

text \<open>Six completions of \<open>u1\<close>, ten seconds apart.\<close>

definition sixWorld :: world where
  "sixWorld =
     \<lparr>ledger = map (\<lambda>i. \<lparr>externalTransactionId = ''tx'' @ showNat i, userId = ''u1'',
                          providerId = ''p1'', convertedAmount = 500, status = Completed,
                          createdAt = 1000000 + 10000 * int i\<rparr>) [0, 1, 2, 3, 4, 5],
      accounts = [\<lparr>user_id = ''u1'', user_createdAt = 0\<rparr>],
      kv = Map.empty, now = 1060000, faults = []\<rparr>"

text \<open>One pending record of \<open>u1\<close>, a minute old.\<close>

definition pendingWorld :: world where
  "pendingWorld =
     \<lparr>ledger = [\<lparr>externalTransactionId = ''tx1'', userId = ''u1'', providerId = ''p1'',
                 convertedAmount = 500, status = Pending, createdAt = 1000000\<rparr>],
      accounts = [\<lparr>user_id = ''u1'', user_createdAt = 0\<rparr>],
      kv = Map.empty, now = 1060000, faults = []\<rparr>"

text \<open>A hundred and one completions of \<open>u1\<close> within 17 hours, ten minutes apart.\<close>

definition crowdedWorld :: world where
  "crowdedWorld =
     \<lparr>ledger = map (\<lambda>i. \<lparr>externalTransactionId = ''tx'' @ showNat i, userId = ''u1'',
                          providerId = ''p1'', convertedAmount = 500, status = Completed,
                          createdAt = 1000000 + 600000 * int i\<rparr>) [0..<101],
      accounts = [\<lparr>user_id = ''u1'', user_createdAt = 0\<rparr>],
      kv = Map.empty, now = 61600000, faults = []\<rparr>"

text \<open>An activity with twelve completions in the hour, 45 seconds apart on average.\<close>

definition calmActivity :: UserActivityPattern where
  "calmActivity = \<lparr>patternUserId = ''u1'', completionsLast24h = 12, completionsLastHour = 12,
     avgCompletionTime = 45, uniqueProviders = 2,
     suspiciousPatterns = [''High completion rate (>10/hour)'']\<rparr>"

text \<open>An empty store; six users calling from one address, a second apart; and a store
  that holds a live record of two users for the address.\<close>

definition quietWorld :: world where
  "quietWorld = \<lparr>ledger = [], accounts = [], kv = Map.empty, now = 0, faults = []\<rparr>"

definition sixCalls :: "(string \<times> int) list" where
  "sixCalls = [(''u1'', 1000), (''u2'', 2000), (''u3'', 3000), (''u4'', 4000), (''u5'', 5000),
               (''u6'', 6000)]"

definition trackedWorld :: world where
  "trackedWorld =
     \<lparr>ledger = [], accounts = [],
      kv = [ipKey ''10.0.0.1'' \<mapsto> (IPDoc [''u1'', ''u2''] 2 2000, 86402000)],
      now = 3000, faults = []\<rparr>"

text \<open>The replay of \<open>tx1\<close> while the eighth collaborator call, the write of the flag,
  throws.\<close>

definition outageWorld :: world where
  "outageWorld = replayWorld\<lparr>faults := [False, False, False, False, False, False, False, True]\<rparr>"

text \<open>A completion of \<open>u1\<close> dated five seconds after the instant of the call.\<close>

definition skewWorld :: world where
  "skewWorld =
     \<lparr>ledger = [\<lparr>externalTransactionId = ''tx1'', userId = ''u1'', providerId = ''p1'',
                 convertedAmount = 500, status = Completed, createdAt = 1005000\<rparr>],
      accounts = [\<lparr>user_id = ''u1'', user_createdAt = 0\<rparr>],
      kv = Map.empty, now = 1000000, faults = []\<rparr>"

section \<open>Basic facts\<close>

lemma await_read_ok:
  "True \<notin> set (faults w) \<Longrightarrow> await_read q w = (Inr (q w), advance w)"
  by (cases "faults w") (auto simp: await_read_def advance_def)

lemma advance_simps [simp]:
  "ledger (advance w) = ledger w" "accounts (advance w) = accounts w"
  "kv (advance w) = kv w" "now (advance w) = now w"
  by (simp_all add: advance_def)

lemma advance_faults: "True \<notin> set (faults w) \<Longrightarrow> True \<notin> set (faults (advance w))"
  by (cases "faults w") (auto simp: advance_def)

lemma io_bind_return [simp]: "io_bind (io_return a) f = f a"
  by (rule ext) (simp add: io_bind_def io_return_def)

lemma io_bind_date_now [simp]: "io_bind date_now f w = f (now w) w"
  by (simp add: io_bind_def date_now_def)

lemma io_bind_await_ok:
  "True \<notin> set (faults w) \<Longrightarrow> io_bind (await_read q) f w = f (q w) (advance w)"
  by (simp add: io_bind_def await_read_ok)

lemma showNat_20: "showNat 20 = ''20''" by (simp add: showNat.simps digit_def)

lemma showNat_30: "showNat 30 = ''30''" by (simp add: showNat.simps digit_def)

lemma showNat_100: "showNat 100 = ''100''" by (simp add: showNat.simps digit_def)

lemma sortNewestFirst_head:
  "sortNewestFirst xs = t # ts \<Longrightarrow> t \<in> set xs \<and> (\<forall>r \<in> set xs. createdAt r \<le> createdAt t)"
proof -
  assume h: "sortNewestFirst xs = t # ts"
  have s: "sorted (map (\<lambda>t. - createdAt t) (sortNewestFirst xs))"
    by (simp add: sortNewestFirst_def)
  have st: "set (sortNewestFirst xs) = set xs" by (simp add: sortNewestFirst_def)
  from s h have "\<forall>r \<in> set ts. createdAt r \<le> createdAt t" by auto
  with st h show ?thesis by auto
qed

lemma sortNewestFirst_Nil [simp]: "sortNewestFirst xs = [] \<longleftrightarrow> xs = []"
  by (metis sortNewestFirst_def length_sort length_0_conv)

section \<open>Rate limiter\<close>

lemma checkRateLimit_ok:
  assumes "True \<notin> set (faults w)"
  shows "fst (checkRateLimit uid w) = Inr
     (if 20 \<le> countCompleted w uid (now w - 3600000)
      then \<lparr>allowed = False,
            reason = Some (''Rate limit exceeded: '' @ showNat (countCompleted w uid (now w - 3600000)) @ ''/20 per hour''),
            retryAfter = Some 3600\<rparr>
      else if 100 \<le> countCompleted w uid (now w - 86400000)
      then \<lparr>allowed = False,
            reason = Some (''Daily limit exceeded: '' @ showNat (countCompleted w uid (now w - 86400000)) @ ''/100 per day''),
            retryAfter = Some 86400\<rparr>
      else \<lparr>allowed = True, reason = None, retryAfter = None\<rparr>)"
  using assms
  by (simp add: checkRateLimit_def countDocuments_def io_bind_await_ok advance_faults
      countCompleted_def RATE_LIMIT_HOUR_def RATE_LIMIT_DAY_def io_return_def showNat_20 showNat_100 Let_def)

lemma countCompleted_completed_only:
  "countCompleted (w\<lparr>ledger := filter (\<lambda>r. status r = Completed) (ledger w)\<rparr>) uid since
     = countCompleted w uid since"
  by (simp add: countCompleted_def conj_commute conj_left_commute)

lemma upt_filter_ge: "k \<le> n \<Longrightarrow> filter (\<lambda>i. k \<le> i) [0..<n] = [k..<n]"
  by (induction n) (auto simp: le_Suc_eq)

lemma busy_count: "countCompleted busyWorld ''u1'' (now busyWorld - 3600000) = 20"
  by (simp add: countCompleted_def busyWorld_def filter_map o_def)

lemma daily_counts:
  "countCompleted dailyWorld ''u1'' (now dailyWorld - 3600000) = 6"
  "countCompleted dailyWorld ''u1'' (now dailyWorld - 86400000) = 100"
proof -
  have a: "\<And>i::nat. (57400000 \<le> 1000000 + 600000 * int i) \<longleftrightarrow> 94 \<le> i" by auto
  show "countCompleted dailyWorld ''u1'' (now dailyWorld - 3600000) = 6"
    by (simp add: countCompleted_def dailyWorld_def filter_map o_def a upt_filter_ge)
  show "countCompleted dailyWorld ''u1'' (now dailyWorld - 86400000) = 100"
    by (simp add: countCompleted_def dailyWorld_def filter_map o_def)
qed

text \<open>
  Claim C4. When no collaborator call throws: a user with at least 20 completed records
  created within the last hour is refused with \<open>retryAfter = 3600\<close> and the reason
  \<^verbatim>\<open>Rate limit exceeded: <count>/20 per hour\<close>; below the hourly ceiling, a user with at
  least 100 completed records created within the last 24 hours is refused with
  \<open>retryAfter = 86400\<close> and the reason \<^verbatim>\<open>Daily limit exceeded: <count>/100 per day\<close>
  (the hourly check comes first, so it answers when both ceilings are reached); below both
  ceilings the user is allowed. Only completed records count: dropping every record of
  another status from the ledger leaves the answer unchanged.
\<close>

theorem C4_checkRateLimit_ceilings:
  assumes "True \<notin> set (faults w)"
  shows "(20 \<le> countCompleted w uid (now w - 3600000) \<longrightarrow>
            fst (checkRateLimit uid w) = Inr
              \<lparr>allowed = False,
               reason = Some (''Rate limit exceeded: '' @
                   showNat (countCompleted w uid (now w - 3600000)) @ ''/20 per hour''),
               retryAfter = Some 3600\<rparr>)
       \<and> (countCompleted w uid (now w - 3600000) < 20 \<and>
          100 \<le> countCompleted w uid (now w - 86400000) \<longrightarrow>
            fst (checkRateLimit uid w) = Inr
              \<lparr>allowed = False,
               reason = Some (''Daily limit exceeded: '' @
                   showNat (countCompleted w uid (now w - 86400000)) @ ''/100 per day''),
               retryAfter = Some 86400\<rparr>)
       \<and> (countCompleted w uid (now w - 3600000) < 20 \<and>
          countCompleted w uid (now w - 86400000) < 100 \<longrightarrow>
            fst (checkRateLimit uid w) = Inr \<lparr>allowed = True, reason = None, retryAfter = None\<rparr>)
       \<and> fst (checkRateLimit uid (w\<lparr>ledger := filter (\<lambda>r. status r = Completed) (ledger w)\<rparr>))
            = fst (checkRateLimit uid w)"
proof -
  let ?w' = "w\<lparr>ledger := filter (\<lambda>r. status r = Completed) (ledger w)\<rparr>"
  from assms have nf: "True \<notin> set (faults ?w')" by simp
  have "fst (checkRateLimit uid ?w') = fst (checkRateLimit uid w)"
    by (simp add: checkRateLimit_ok [OF nf] checkRateLimit_ok [OF assms]
        countCompleted_completed_only)
  then show ?thesis by (simp add: checkRateLimit_ok [OF assms])
qed

theorem C4_witness:
  "fst (checkRateLimit ''u1'' busyWorld) = Inr
     \<lparr>allowed = False, reason = Some ''Rate limit exceeded: 20/20 per hour'',
      retryAfter = Some 3600\<rparr>
   \<and> fst (checkRateLimit ''u1'' dailyWorld) = Inr
     \<lparr>allowed = False, reason = Some ''Daily limit exceeded: 100/100 per day'',
      retryAfter = Some 86400\<rparr>"
proof -
  have b: "True \<notin> set (faults busyWorld)" by (simp add: busyWorld_def)
  have d: "True \<notin> set (faults dailyWorld)" by (simp add: dailyWorld_def)
  from C4_checkRateLimit_ceilings [OF b, of "''u1''"] C4_checkRateLimit_ceilings [OF d, of "''u1''"]
  show ?thesis by (simp add: busy_count daily_counts showNat_20 showNat_100)
qed

section \<open>Cooldown\<close>

lemma findOneSorted_most_recent:
  assumes "mostRecentCompleted w uid lc"
  shows "\<exists>t. (case sortNewestFirst (filter (\<lambda>r. userId r = uid \<and> status r = Completed) (ledger w))
              of [] \<Rightarrow> None | t # _ \<Rightarrow> Some t) = Some t \<and> createdAt t = createdAt lc"
proof -
  let ?xs = "filter (\<lambda>r. userId r = uid \<and> status r = Completed) (ledger w)"
  from assms have in_xs: "lc \<in> set ?xs" by (simp add: mostRecentCompleted_def)
  then have "?xs \<noteq> []" by (metis empty_iff empty_set)
  then have "sortNewestFirst ?xs \<noteq> []" by simp
  then obtain t ts where ts: "sortNewestFirst ?xs = t # ts" by (cases "sortNewestFirst ?xs") auto
  from sortNewestFirst_head [OF ts] in_xs have "t \<in> set ?xs" "createdAt lc \<le> createdAt t"
    by auto
  moreover from assms \<open>t \<in> set ?xs\<close> have "createdAt t \<le> createdAt lc"
    by (simp add: mostRecentCompleted_def)
  ultimately show ?thesis using ts by simp
qed

lemma checkCompletionCooldown_none:
  assumes "True \<notin> set (faults w)"
    and "\<forall>r \<in> set (ledger w). \<not> (userId r = uid \<and> status r = Completed)"
  shows "fst (checkCompletionCooldown uid w) = Inr \<lparr>allowed = True, reason = None, retryAfter = None\<rparr>"
proof -
  from assms(2) have "filter (\<lambda>r. userId r = uid \<and> status r = Completed) (ledger w) = []"
    by (simp add: filter_empty_conv)
  then show ?thesis using assms(1)
    by (simp add: checkCompletionCooldown_def findOneSorted_def io_bind_await_ok io_return_def
        sortNewestFirst_def)
qed

lemma checkCompletionCooldown_some:
  assumes "True \<notin> set (faults w)" and "mostRecentCompleted w uid lc"
  shows "fst (checkCompletionCooldown uid w) = Inr
     (if elapsedSeconds w lc < 30
      then \<lparr>allowed = False, reason = Some ''Cooldown period: 30s between completions'',
            retryAfter = Some \<lceil>30 - elapsedSeconds w lc\<rceil>\<rparr>
      else \<lparr>allowed = True, reason = None, retryAfter = None\<rparr>)"
proof -
  from findOneSorted_most_recent [OF assms(2)] obtain t where
    t: "(case sortNewestFirst (filter (\<lambda>r. userId r = uid \<and> status r = Completed) (ledger w))
              of [] \<Rightarrow> None | t # _ \<Rightarrow> Some t) = Some t" "createdAt t = createdAt lc" by blast
  show ?thesis using assms(1) t
    by (simp add: checkCompletionCooldown_def findOneSorted_def io_bind_await_ok io_return_def
        elapsedSeconds_def MIN_COMPLETION_TIME_def showNat_30 Let_def)
qed

lemma retry_range:
  fixes e :: rat
  shows "e < 30 \<Longrightarrow> 0 < \<lceil>30 - e\<rceil>" and "0 \<le> e \<Longrightarrow> \<lceil>30 - e\<rceil> \<le> 30"
  by (simp_all add: ceiling_le_iff)

lemma retry_above:
  fixes e :: rat
  shows "e < 0 \<Longrightarrow> 30 < \<lceil>30 - e\<rceil>"
  by (simp add: less_ceiling_iff)

text \<open>
  Claim C5, as amended. When the ledger read does not throw: a user with no completed
  record is allowed; for a user whose most recent completed record is \<open>elapsed\<close> seconds old,
  \<open>elapsed < 30\<close> gives \<open>allowed = false\<close> with \<open>retryAfter = \<lceil>30 - elapsed\<rceil>\<close>, which is positive,
  at most 30 when \<open>0 \<le> elapsed\<close>, and above 30 when \<open>elapsed < 0\<close> (a record dated after the
  instant of the call); and \<open>elapsed \<ge> 30\<close> (so also \<open>elapsed \<ge> 31\<close>) gives \<open>allowed = true\<close>.
\<close>

theorem C5_checkCompletionCooldown:
  assumes "True \<notin> set (faults w)"
  shows "((\<forall>r \<in> set (ledger w). \<not> (userId r = uid \<and> status r = Completed)) \<longrightarrow>
            fst (checkCompletionCooldown uid w)
              = Inr \<lparr>allowed = True, reason = None, retryAfter = None\<rparr>)
       \<and> (\<forall>lc. mostRecentCompleted w uid lc \<longrightarrow>
            (elapsedSeconds w lc < 30 \<longrightarrow>
               fst (checkCompletionCooldown uid w) = Inr
                 \<lparr>allowed = False, reason = Some ''Cooldown period: 30s between completions'',
                  retryAfter = Some \<lceil>30 - elapsedSeconds w lc\<rceil>\<rparr>
               \<and> 0 < \<lceil>30 - elapsedSeconds w lc\<rceil>)
          \<and> (0 \<le> elapsedSeconds w lc \<and> elapsedSeconds w lc < 30 \<longrightarrow>
               \<lceil>30 - elapsedSeconds w lc\<rceil> \<le> 30)
          \<and> (elapsedSeconds w lc < 0 \<longrightarrow> 30 < \<lceil>30 - elapsedSeconds w lc\<rceil>)
          \<and> (30 \<le> elapsedSeconds w lc \<longrightarrow>
               fst (checkCompletionCooldown uid w)
                 = Inr \<lparr>allowed = True, reason = None, retryAfter = None\<rparr>))"
  using checkCompletionCooldown_none [OF assms, of uid]
    checkCompletionCooldown_some [OF assms] retry_range retry_above
  by (simp add: not_less)

theorem C5_witness:
  "mostRecentCompleted cooldownWorld ''u1'' (ledger cooldownWorld ! 1)
   \<and> elapsedSeconds cooldownWorld (ledger cooldownWorld ! 1) = 10
   \<and> fst (checkCompletionCooldown ''u1'' cooldownWorld) = Inr
       \<lparr>allowed = False, reason = Some ''Cooldown period: 30s between completions'',
        retryAfter = Some 20\<rparr>
   \<and> fst (checkCompletionCooldown ''u2'' cooldownWorld)
       = Inr \<lparr>allowed = True, reason = None, retryAfter = None\<rparr>"
proof -
  have nf: "True \<notin> set (faults cooldownWorld)" by (simp add: cooldownWorld_def)
  have m: "mostRecentCompleted cooldownWorld ''u1'' (ledger cooldownWorld ! 1)"
    by (simp add: mostRecentCompleted_def cooldownWorld_def)
  have e: "elapsedSeconds cooldownWorld (ledger cooldownWorld ! 1) = 10"
    by (simp add: elapsedSeconds_def cooldownWorld_def)
  have n: "\<forall>r \<in> set (ledger cooldownWorld). \<not> (userId r = ''u2'' \<and> status r = Completed)"
    by (simp add: cooldownWorld_def)
  from C5_checkCompletionCooldown [OF nf, of "''u1''"] C5_checkCompletionCooldown [OF nf, of "''u2''"]
    m e n
  show ?thesis by auto
qed

text \<open>
  The claim as stated, with \<open>retryAfter\<close> in \<open>(0, 30]\<close> for every \<open>elapsed < 30\<close>, fails for a
  most recent completion dated five seconds after the instant of the call: \<open>elapsed = -5\<close>
  and \<open>retryAfter = 35\<close>.
\<close>

theorem C5_counterexample:
  "mostRecentCompleted skewWorld ''u1'' (hd (ledger skewWorld))
   \<and> elapsedSeconds skewWorld (hd (ledger skewWorld)) = - 5
   \<and> fst (checkCompletionCooldown ''u1'' skewWorld) = Inr
       \<lparr>allowed = False, reason = Some ''Cooldown period: 30s between completions'',
        retryAfter = Some 35\<rparr>"
proof -
  have nf: "True \<notin> set (faults skewWorld)" by (simp add: skewWorld_def)
  have m: "mostRecentCompleted skewWorld ''u1'' (hd (ledger skewWorld))"
    by (simp add: mostRecentCompleted_def skewWorld_def)
  have e: "elapsedSeconds skewWorld (hd (ledger skewWorld)) = - 5"
    by (simp add: elapsedSeconds_def skewWorld_def)
  from checkCompletionCooldown_some [OF nf m] m e show ?thesis by simp
qed

section \<open>Flag store\<close>

text \<open>
  Claim C10. \<open>isUserFlagged\<close> never throws: it always returns a boolean. When the read of
  the store throws it returns \<open>false\<close>, whatever the store holds, so also for a user with a
  live flag; when the read does not throw it returns whether a live flag exists.
\<close>

theorem C10_isUserFlagged_swallows_store_error:
  "(\<exists>b. fst (isUserFlagged uid w) = Inr b)
   \<and> (\<forall>fs. faults w = True # fs \<longrightarrow> fst (isUserFlagged uid w) = Inr False)
   \<and> (True \<notin> set (take 1 (faults w)) \<longrightarrow>
        fst (isUserFlagged uid w) = Inr (live w (''fraud:flagged:'' @ uid) \<noteq> None))"
  by (cases "faults w")
     (auto simp: isUserFlagged_def io_catch_def io_bind_def redis_get_def await_read_def
        io_return_def)

theorem C10_witness:
  "live flaggedOutage ''fraud:flagged:u1'' \<noteq> None
   \<and> fst (isUserFlagged ''u1'' flaggedOutage) = Inr False"
  using C10_isUserFlagged_swallows_store_error [of "''u1''" flaggedOutage]
  by (simp add: flaggedOutage_def live_def)

section \<open>Risk score\<close>

lemma riskScoreOf_terms:
  "riskScoreOf a u t =
     min (rateTerm (completionsLastHour a) + speedTerm (avgCompletionTime a)
          + focusTerm (uniqueProviders a) (completionsLast24h a)
          + int (length (suspiciousPatterns a)) * 10
          + ageTerm u t (completionsLast24h a)) 100"
  by (cases u) (simp_all add: riskScoreOf_def Let_def rateTerm_def speedTerm_def focusTerm_def
      ageTerm_def)

lemma rateTerm_mono: "n \<le> n' \<Longrightarrow> rateTerm n \<le> rateTerm n'"
  by (simp add: rateTerm_def)

lemma speedTerm_antimono: "x' \<le> x \<Longrightarrow> speedTerm x \<le> speedTerm x'"
  by (simp add: speedTerm_def)

lemma terms_nonneg:
  "0 \<le> rateTerm n" "0 \<le> speedTerm x" "0 \<le> focusTerm p m" "0 \<le> ageTerm u t m"
  by (simp_all add: rateTerm_def speedTerm_def focusTerm_def ageTerm_def split: option.splits)

lemma riskScoreOf_range: "0 \<le> riskScoreOf a u t \<and> riskScoreOf a u t \<le> 100"
  by (auto simp: riskScoreOf_terms intro!: add_nonneg_nonneg terms_nonneg)

text \<open>
  Claim C8. The score computed by \<^verbatim>\<open>calculateRiskScore\<close> from the activity, the account and
  the instant (\<open>riskScoreOf\<close>, the value the function returns by lemma
  \<open>calculateRiskScore_ok\<close>) never gets smaller when \<open>completionsLastHour\<close> grows, when
  \<open>avgCompletionTime\<close> shrinks, or when one more suspicious-pattern label is added, the
  other inputs being fixed.
\<close>

theorem C8_riskScore_monotone:
  "(n \<le> n' \<longrightarrow> riskScoreOf (a\<lparr>completionsLastHour := n\<rparr>) u t
                  \<le> riskScoreOf (a\<lparr>completionsLastHour := n'\<rparr>) u t)
   \<and> (x' \<le> x \<longrightarrow> riskScoreOf (a\<lparr>avgCompletionTime := x\<rparr>) u t
                  \<le> riskScoreOf (a\<lparr>avgCompletionTime := x'\<rparr>) u t)
   \<and> riskScoreOf a u t \<le> riskScoreOf (a\<lparr>suspiciousPatterns := suspiciousPatterns a @ [l]\<rparr>) u t"
proof (intro conjI impI)
  assume "n \<le> n'"
  from rateTerm_mono [OF this]
  show "riskScoreOf (a\<lparr>completionsLastHour := n\<rparr>) u t
          \<le> riskScoreOf (a\<lparr>completionsLastHour := n'\<rparr>) u t"
    by (simp add: riskScoreOf_terms)
next
  assume "x' \<le> x"
  from speedTerm_antimono [OF this]
  show "riskScoreOf (a\<lparr>avgCompletionTime := x\<rparr>) u t
          \<le> riskScoreOf (a\<lparr>avgCompletionTime := x'\<rparr>) u t"
    by (simp add: riskScoreOf_terms)
next
  show "riskScoreOf a u t \<le> riskScoreOf (a\<lparr>suspiciousPatterns := suspiciousPatterns a @ [l]\<rparr>) u t"
    by (simp add: riskScoreOf_terms)
qed

theorem C8_witness:
  "(12::nat) \<le> 16 \<and> (20::rat) \<le> 45
   \<and> riskScoreOf (calmActivity\<lparr>completionsLastHour := 12\<rparr>) None 0
       \<le> riskScoreOf (calmActivity\<lparr>completionsLastHour := 16\<rparr>) None 0
   \<and> riskScoreOf (calmActivity\<lparr>avgCompletionTime := 45\<rparr>) None 0
       \<le> riskScoreOf (calmActivity\<lparr>avgCompletionTime := 20\<rparr>) None 0
   \<and> riskScoreOf calmActivity None 0 = 45
   \<and> riskScoreOf (calmActivity\<lparr>completionsLastHour := 16\<rparr>) None 0 = 60
   \<and> riskScoreOf (calmActivity\<lparr>avgCompletionTime := 20\<rparr>) None 0 = 65"
  using C8_riskScore_monotone [of 12 16 calmActivity None 0 20 45]
  by (simp add: riskScoreOf_def calmActivity_def)

section \<open>Behavioural analyzer\<close>

lemma gapLoop_pairs: "snd (gapLoop xs t p) = p + (length xs - 1)"
  by (induction xs t p rule: gapLoop.induct) auto

lemma gapLoop_total:
  "xs \<noteq> [] \<Longrightarrow> fst (gapLoop xs t p) = t + (createdAt (hd xs) - createdAt (last xs))"
  by (induction xs t p rule: gapLoop.induct) auto

lemma await_read_Inr: "await_read q w = (Inr a, w') \<Longrightarrow> a = q w \<and> w' = advance w"
  by (cases "faults w") (auto simp: await_read_def advance_def split: if_splits)

lemma io_bind_Inr:
  "io_bind m f w = (Inr b, w'') \<Longrightarrow> \<exists>a w'. m w = (Inr a, w') \<and> f a w' = (Inr b, w'')"
  by (auto simp: io_bind_def split: prod.splits sum.splits)

lemma analyzeUserActivity_Inr:
  assumes "analyzeUserActivity uid w = (Inr a, w')"
  shows "a = activityPattern uid (now w - 3600000) (recentWindow w uid) \<and> w' = advance w"
  using assms
  by (auto simp: analyzeUserActivity_def findSorted_def recentWindow_def io_return_def Let_def
      dest!: io_bind_Inr await_read_Inr)

lemma analyzeUserActivity_ok:
  assumes "True \<notin> set (faults w)"
  shows "analyzeUserActivity uid w
           = (Inr (activityPattern uid (now w - 3600000) (recentWindow w uid)), advance w)"
  using assms
  by (simp add: analyzeUserActivity_def findSorted_def recentWindow_def io_return_def Let_def
      io_bind_await_ok)

lemma activityPattern_fields:
  "completionsLast24h (activityPattern uid h xs) = length xs"
  "avgCompletionTime (activityPattern uid h xs)
     = (if length xs - 1 > 0
        then of_int (fst (gapLoop xs 0 0)) / of_nat (length xs - 1) / 1000 else 0)"
  "fastLabel \<in> set (suspiciousPatterns (activityPattern uid h xs))
     \<longleftrightarrow> avgCompletionTime (activityPattern uid h xs) < 60 \<and> length xs - 1 > 5"
  by (simp_all add: activityPattern_def Let_def gapLoop_pairs fastLabel_def)

lemma analyzeUserActivity_total:
  "True \<notin> set (faults w) \<Longrightarrow> \<exists>a. fst (analyzeUserActivity uid w) = Inr a"
  by (simp add: analyzeUserActivity_ok)

lemma analyzeUserActivity_fst:
  "fst (analyzeUserActivity uid w) = Inr a \<Longrightarrow>
     a = activityPattern uid (now w - 3600000) (recentWindow w uid)"
  using analyzeUserActivity_Inr [of uid w a "snd (analyzeUserActivity uid w)"]
  by (metis prod.collapse)

lemma calculateRiskScore_ok:
  assumes "True \<notin> set (faults w)"
  shows "fst (calculateRiskScore uid w) = Inr
     (riskScoreOf (activityPattern uid (now w - 3600000) (recentWindow w uid))
        (find (\<lambda>u. user_id u = uid) (accounts w)) (now w))"
  using assms
  by (simp add: calculateRiskScore_def io_bind_def analyzeUserActivity_ok findUserById_def
      await_read_ok advance_faults date_now_def io_return_def)

lemma six_window:
  "recentWindow sixWorld ''u1'' = rev (ledger sixWorld)"
  by (simp add: recentWindow_def sixWorld_def sortNewestFirst_def)

text \<open>
  Claim C7, as amended. \<^verbatim>\<open>analyzeUserActivity\<close> returns whenever the ledger read does not
  throw, and in every result the ``unusually fast completions'' label is present exactly
  when \<open>avgCompletionTime < 60\<close> and the fetched window holds at least 7 records (more than
  5 consecutive pairs); \<open>avgCompletionTime\<close> is 0 whenever the window holds fewer than two
  records.
\<close>

theorem C7_fast_completions_label:
  "(True \<notin> set (faults w) \<longrightarrow> (\<exists>a. fst (analyzeUserActivity uid w) = Inr a))
   \<and> (\<forall>a. fst (analyzeUserActivity uid w) = Inr a \<longrightarrow>
         completionsLast24h a = length (recentWindow w uid)
       \<and> (fastLabel \<in> set (suspiciousPatterns a)
            \<longleftrightarrow> avgCompletionTime a < 60 \<and> 7 \<le> length (recentWindow w uid))
       \<and> (length (recentWindow w uid) < 2 \<longrightarrow> avgCompletionTime a = 0))"
proof (intro conjI impI allI)
  assume "True \<notin> set (faults w)"
  then show "\<exists>a. fst (analyzeUserActivity uid w) = Inr a" by (rule analyzeUserActivity_total)
next
  fix a assume "fst (analyzeUserActivity uid w) = Inr a"
  then have a: "a = activityPattern uid (now w - 3600000) (recentWindow w uid)"
    by (rule analyzeUserActivity_fst)
  show "completionsLast24h a = length (recentWindow w uid)"
    by (simp add: a activityPattern_fields)
  show "fastLabel \<in> set (suspiciousPatterns a)
          \<longleftrightarrow> avgCompletionTime a < 60 \<and> 7 \<le> length (recentWindow w uid)"
    unfolding a activityPattern_fields(3) by auto
  assume "length (recentWindow w uid) < 2"
  then show "avgCompletionTime a = 0"
    by (simp add: a activityPattern_fields)
qed

theorem C7_witness:
  "fst (analyzeUserActivity ''u1'' sixWorld) = Inr
     (activityPattern ''u1'' (now sixWorld - 3600000) (recentWindow sixWorld ''u1''))
   \<and> length (recentWindow sixWorld ''u1'') = 6
   \<and> fastLabel \<notin> set (suspiciousPatterns
        (activityPattern ''u1'' (now sixWorld - 3600000) (recentWindow sixWorld ''u1'')))"
proof -
  have nf: "True \<notin> set (faults sixWorld)" by (simp add: sixWorld_def)
  have len: "length (recentWindow sixWorld ''u1'') = 6"
    by (simp add: six_window) (simp add: sixWorld_def)
  from C7_fast_completions_label [of sixWorld "''u1''"] nf
  obtain a where a: "fst (analyzeUserActivity ''u1'' sixWorld) = Inr a" by blast
  with C7_fast_completions_label [of sixWorld "''u1''"] len
  have "fastLabel \<notin> set (suspiciousPatterns a)" by simp
  moreover from a have "a = activityPattern ''u1'' (now sixWorld - 3600000) (recentWindow sixWorld ''u1'')"
    by (rule analyzeUserActivity_fst)
  ultimately show ?thesis using a len by simp
qed

text \<open>
  The claim as stated, with ``at least 6 records'', fails on six completions ten seconds
  apart: the average is 10 seconds, the window holds 6 records (5 pairs), and the label
  is absent.
\<close>

theorem C7_counterexample:
  "fst (analyzeUserActivity ''u1'' sixWorld) = Inr
     \<lparr>patternUserId = ''u1'', completionsLast24h = 6, completionsLastHour = 6,
      avgCompletionTime = 10, uniqueProviders = 1, suspiciousPatterns = []\<rparr>
   \<and> fastLabel_spec
     \<lparr>patternUserId = ''u1'', completionsLast24h = 6, completionsLastHour = 6,
      avgCompletionTime = 10, uniqueProviders = 1, suspiciousPatterns = []\<rparr>
   \<and> fastLabel \<notin> set []"
proof -
  have nf: "True \<notin> set (faults sixWorld)" by (simp add: sixWorld_def)
  have "activityPattern ''u1'' (now sixWorld - 3600000) (rev (ledger sixWorld)) =
     \<lparr>patternUserId = ''u1'', completionsLast24h = 6, completionsLastHour = 6,
      avgCompletionTime = 10, uniqueProviders = 1, suspiciousPatterns = []\<rparr>"
    by (simp add: activityPattern_def sixWorld_def Let_def)
  then show ?thesis
    by (simp add: analyzeUserActivity_ok [OF nf] six_window fastLabel_spec_def)
qed

lemma recentWindow_mset:
  "mset (recentWindow w uid)
     = mset (filter (\<lambda>r. userId r = uid \<and> now w - 86400000 \<le> createdAt r) (ledger w))"
  by (simp add: recentWindow_def sortNewestFirst_def)

lemma recentWindow_sorted:
  "sorted_wrt (\<lambda>a b. createdAt b \<le> createdAt a) (recentWindow w uid)"
proof -
  have "sorted (map (\<lambda>t. - createdAt t) (recentWindow w uid))"
    by (simp add: recentWindow_def sortNewestFirst_def)
  then show ?thesis by (simp add: sorted_map)
qed

lemma recentWindow_restrict:
  "recentWindow (w\<lparr>ledger := filter (\<lambda>r. userId r = uid \<and> now w - 86400000 \<le> createdAt r) (ledger w)\<rparr>) uid
     = recentWindow w uid"
  by (simp add: recentWindow_def)

lemma pending_window: "recentWindow pendingWorld ''u1'' = ledger pendingWorld"
  by (simp add: recentWindow_def pendingWorld_def sortNewestFirst_def)

lemma pending_pattern:
  "activityPattern ''u1'' (now pendingWorld - 3600000) (ledger pendingWorld) =
     \<lparr>patternUserId = ''u1'', completionsLast24h = 1, completionsLastHour = 1,
      avgCompletionTime = 0, uniqueProviders = 1, suspiciousPatterns = []\<rparr>"
  by (simp add: activityPattern_def pendingWorld_def Let_def)

lemma crowded_lengths:
  "length (recentWindow crowdedWorld ''u1'') = 101"
  "length (recentCompleted_spec crowdedWorld ''u1'') = 100"
  by (simp_all add: recentWindow_def recentCompleted_spec_def crowdedWorld_def sortNewestFirst_def
      filter_map o_def)

text \<open>
  Claim C6, as amended. When the ledger read does not throw, \<^verbatim>\<open>analyzeUserActivity\<close>
  computes its metrics over the window \<open>recentWindow\<close>: a rearrangement, newest first, of
  all the ledger records of the user created within the last 24 hours, whatever their
  status and however many they are. Records of other users and records older than 24 hours
  do not affect the result.
\<close>

theorem C6_window_of_analyzeUserActivity:
  assumes "True \<notin> set (faults w)"
  shows "fst (analyzeUserActivity uid w)
           = Inr (activityPattern uid (now w - 3600000) (recentWindow w uid))
       \<and> mset (recentWindow w uid)
           = mset (filter (\<lambda>r. userId r = uid \<and> now w - 86400000 \<le> createdAt r) (ledger w))
       \<and> sorted_wrt (\<lambda>a b. createdAt b \<le> createdAt a) (recentWindow w uid)
       \<and> fst (analyzeUserActivity uid
             (w\<lparr>ledger := filter (\<lambda>r. userId r = uid \<and> now w - 86400000 \<le> createdAt r) (ledger w)\<rparr>))
           = fst (analyzeUserActivity uid w)"
proof -
  let ?w' = "w\<lparr>ledger := filter (\<lambda>r. userId r = uid \<and> now w - 86400000 \<le> createdAt r) (ledger w)\<rparr>"
  from assms have nf: "True \<notin> set (faults ?w')" by simp
  have "fst (analyzeUserActivity uid ?w') = fst (analyzeUserActivity uid w)"
    by (simp add: analyzeUserActivity_ok [OF nf] analyzeUserActivity_ok [OF assms]
        recentWindow_restrict)
  then show ?thesis
    by (simp add: analyzeUserActivity_ok [OF assms] recentWindow_mset recentWindow_sorted)
qed

theorem C6_witness:
  "fst (analyzeUserActivity ''u1'' pendingWorld) = Inr
     \<lparr>patternUserId = ''u1'', completionsLast24h = 1, completionsLastHour = 1,
      avgCompletionTime = 0, uniqueProviders = 1, suspiciousPatterns = []\<rparr>"
proof -
  have nf: "True \<notin> set (faults pendingWorld)" by (simp add: pendingWorld_def)
  from C6_window_of_analyzeUserActivity [OF nf, of "''u1''"]
  show ?thesis by (simp add: pending_window pending_pattern)
qed

text \<open>
  The claim as stated fails twice. A single pending record of the user is counted by the
  code (\<open>completionsLast24h = 1\<close>), while the window of the spec's words (completed records
  only) is empty. And with 101 completed records in the last 24 hours the code counts 101,
  while the window of the spec's words is cut at 100.
\<close>

theorem C6_counterexample:
  "fst (analyzeUserActivity ''u1'' pendingWorld) = Inr
     \<lparr>patternUserId = ''u1'', completionsLast24h = 1, completionsLastHour = 1,
      avgCompletionTime = 0, uniqueProviders = 1, suspiciousPatterns = []\<rparr>
   \<and> activityPattern ''u1'' (now pendingWorld - 3600000) (recentCompleted_spec pendingWorld ''u1'') =
     \<lparr>patternUserId = ''u1'', completionsLast24h = 0, completionsLastHour = 0,
      avgCompletionTime = 0, uniqueProviders = 0, suspiciousPatterns = []\<rparr>
   \<and> map_sum id completionsLast24h (fst (analyzeUserActivity ''u1'' crowdedWorld)) = Inr 101
   \<and> completionsLast24h
       (activityPattern ''u1'' (now crowdedWorld - 3600000) (recentCompleted_spec crowdedWorld ''u1''))
       = 100"
proof -
  have nfp: "True \<notin> set (faults pendingWorld)" by (simp add: pendingWorld_def)
  have nfc: "True \<notin> set (faults crowdedWorld)" by (simp add: crowdedWorld_def)
  have spec_empty: "recentCompleted_spec pendingWorld ''u1'' = []"
    by (simp add: recentCompleted_spec_def pendingWorld_def sortNewestFirst_def)
  have "activityPattern ''u1'' (now pendingWorld - 3600000) [] =
     \<lparr>patternUserId = ''u1'', completionsLast24h = 0, completionsLastHour = 0,
      avgCompletionTime = 0, uniqueProviders = 0, suspiciousPatterns = []\<rparr>"
    by (simp add: activityPattern_def Let_def)
  then show ?thesis
    by (simp add: analyzeUserActivity_ok [OF nfp] analyzeUserActivity_ok [OF nfc] pending_window
        pending_pattern spec_empty activityPattern_fields crowded_lengths)
qed

section \<open>IP abuse tracker\<close>

lemma redis_setex_ok:
  "True \<notin> set (faults w) \<Longrightarrow>
     redis_setex k ttl d w = (Inr (), (advance w)\<lparr>kv := (kv w)(k \<mapsto> (d, now w + ttl * 1000))\<rparr>)"
  by (cases "faults w") (auto simp: redis_setex_def advance_def)

lemma io_bind_throw [simp]: "io_bind (io_throw e) f = io_throw e"
  by (rule ext) (simp add: io_bind_def io_throw_def)

lemma io_bind_setex_ok:
  "True \<notin> set (faults w) \<Longrightarrow>
     io_bind (redis_setex k ttl d) f w
       = f () ((advance w)\<lparr>kv := (kv w)(k \<mapsto> (d, now w + ttl * 1000))\<rparr>)"
  by (simp add: io_bind_def redis_setex_ok)

lemma trackIPAddress_ok:
  assumes "True \<notin> set (faults w)"
    and "live w (ipKey ip) = None \<and> us = [] \<and> c = 0
         \<or> (\<exists>seen. live w (ipKey ip) = Some (IPDoc us c seen))"
  shows "trackIPAddress ip uid w =
     (Inr (if length (if uid \<notin> set us then us @ [uid] else us) > 5
           then \<lparr>suspicious = True,
                 ipReason = Some (''Multiple users ('' @
                   showNat (length (if uid \<notin> set us then us @ [uid] else us)) @ '') from same IP'')\<rparr>
           else if c + 1 > 100
           then \<lparr>suspicious = True,
                 ipReason = Some (''High request count ('' @ showNat (c + 1) @ '') from IP'')\<rparr>
           else \<lparr>suspicious = False, ipReason = None\<rparr>),
      (advance (advance w))\<lparr>kv := (kv w)(ipKey ip \<mapsto>
         (IPDoc (if uid \<notin> set us then us @ [uid] else us) (c + 1) (now w), now w + 86400000))\<rparr>)"
  using assms
  by (auto simp: trackIPAddress_def io_catch_def redis_get_def io_bind_await_ok
      ipDataOf_def io_return_def io_bind_setex_ok advance_faults ipKey_def Let_def)

lemma trackCalls_distinct:
  assumes "True \<notin> set (faults w)"
    and "kv w (ipKey ip) = None \<and> us = []
         \<or> (\<exists>seen expiry. kv w (ipKey ip) = Some (IPDoc us (length us) seen, expiry)
                \<and> t0 + 86400000 \<le> expiry)"
    and "distinct (us @ map fst calls)"
    and "\<forall>c \<in> set calls. t0 \<le> snd c \<and> snd c < t0 + 86400000"
  shows "fst (trackCalls ip calls w)
           = map (\<lambda>i. Inr (ipVerdict (length us + i + 1))) [0..<length calls]"
  using assms
proof (induction calls arbitrary: w us)
  case Nil
  then show ?case by simp
next
  case (Cons call calls)
  obtain uid t where call: "call = (uid, t)" by (cases call)
  let ?w1 = "w\<lparr>now := t\<rparr>"
  let ?us' = "us @ [uid]"
  let ?w2 = "(advance (advance ?w1))\<lparr>kv := (kv ?w1)(ipKey ip \<mapsto>
         (IPDoc ?us' (length us + 1) (now ?w1), now ?w1 + 86400000))\<rparr>"
  from Cons.prems(4) call have t: "t0 \<le> t" "t < t0 + 86400000" by auto
  from Cons.prems(3) call have fresh: "uid \<notin> set us" by auto
  from Cons.prems(1) have nf1: "True \<notin> set (faults ?w1)" by simp
  from Cons.prems(2) t have lv: "live ?w1 (ipKey ip) = None \<and> us = [] \<and> length us = 0
         \<or> (\<exists>seen. live ?w1 (ipKey ip) = Some (IPDoc us (length us) seen))"
    by (auto simp: live_def)
  have step: "trackIPAddress ip uid ?w1 = (Inr (ipVerdict (length us + 1)), ?w2)"
    using trackIPAddress_ok [OF nf1 lv, of uid] fresh by (simp add: ipVerdict_def)
  have nf2: "True \<notin> set (faults ?w2)"
    using advance_faults [OF advance_faults [OF nf1]] by simp
  have inv2: "kv ?w2 (ipKey ip) = None \<and> ?us' = []
         \<or> (\<exists>seen expiry. kv ?w2 (ipKey ip) = Some (IPDoc ?us' (length ?us') seen, expiry)
                \<and> t0 + 86400000 \<le> expiry)"
    using t by simp
  from Cons.prems(3) call have d2: "distinct (?us' @ map fst calls)" by auto
  from Cons.prems(4) have r2: "\<forall>c \<in> set calls. t0 \<le> snd c \<and> snd c < t0 + 86400000" by simp
  have "fst (trackCalls ip calls ?w2)
          = map (\<lambda>i. Inr (ipVerdict (length ?us' + i + 1))) [0..<length calls]"
    by (rule Cons.IH [OF nf2 inv2 d2 r2])
  moreover obtain rs w3 where "trackCalls ip calls ?w2 = (rs, w3)"
    by (cases "trackCalls ip calls ?w2")
  ultimately show ?case
    by (simp add: call step map_upt_Suc del: upt_Suc)
qed

lemma trackIPAddress_step:
  assumes "kv w (ipKey ip) = Some (IPDoc us c seen, expiry)" and "now w < expiry"
  shows "(\<exists>r. fst (trackIPAddress ip uid w) = Inr r)
       \<and> (\<exists>us' c' seen' expiry'.
            kv (snd (trackIPAddress ip uid w)) (ipKey ip) = Some (IPDoc us' c' seen', expiry')
          \<and> c \<le> c' \<and> (distinct us \<longrightarrow> distinct us') \<and> (uid \<in> set us \<longrightarrow> us' = us)
          \<and> set us \<subseteq> set us' \<and> now w < expiry')"
  using assms
  by (cases "faults w"; cases "tl (faults w)")
     (auto simp: trackIPAddress_def io_catch_def io_bind_def redis_get_def await_read_def
        live_def ipDataOf_def io_return_def redis_setex_def date_now_def Let_def ipKey_def
        split: if_splits)

text \<open>
  Claim C9. Starting from no record for the address, with no call to the store throwing,
  track calls for pairwise distinct users at instants within one 24-hour window answer,
  for the \<open>i\<close>-th user, \<open>ipVerdict i\<close>: \<open>suspicious = false\<close> for the first five and, from the
  sixth on, \<open>suspicious = true\<close> with the reason \<^verbatim>\<open>Multiple users (<n>) from same IP\<close>.
  And for any live record, whatever the store does during the call: the call does not
  throw, the record stays, its \<open>count\<close> does not decrease, its \<open>users\<close> stay free of
  duplicates, a user already tracked leaves \<open>users\<close> unchanged, and no user is dropped.
\<close>

theorem C9_trackIPAddress:
  "(kv w (ipKey ip) = None \<and> True \<notin> set (faults w) \<and> distinct (map fst calls)
      \<and> (\<forall>c \<in> set calls. t0 \<le> snd c \<and> snd c < t0 + 86400000)
    \<longrightarrow> fst (trackCalls ip calls w) = map (\<lambda>i. Inr (ipVerdict (i + 1))) [0..<length calls])
   \<and> (\<forall>us c seen expiry.
        kv w (ipKey ip) = Some (IPDoc us c seen, expiry) \<and> now w < expiry
        \<longrightarrow> (\<exists>r. fst (trackIPAddress ip uid w) = Inr r)
          \<and> (\<exists>us' c' seen' expiry'.
                kv (snd (trackIPAddress ip uid w)) (ipKey ip) = Some (IPDoc us' c' seen', expiry')
              \<and> c \<le> c' \<and> (distinct us \<longrightarrow> distinct us') \<and> (uid \<in> set us \<longrightarrow> us' = us)
              \<and> set us \<subseteq> set us' \<and> now w < expiry'))"
proof (intro conjI impI allI)
  assume h: "kv w (ipKey ip) = None \<and> True \<notin> set (faults w) \<and> distinct (map fst calls)
      \<and> (\<forall>c \<in> set calls. t0 \<le> snd c \<and> snd c < t0 + 86400000)"
  then have "fst (trackCalls ip calls w)
               = map (\<lambda>i. Inr (ipVerdict (length ([]::string list) + i + 1))) [0..<length calls]"
    by (intro trackCalls_distinct [where ?t0.0 = t0]) simp_all
  then show "fst (trackCalls ip calls w) = map (\<lambda>i. Inr (ipVerdict (i + 1))) [0..<length calls]"
    by simp
next
  fix us c seen expiry
  assume h: "kv w (ipKey ip) = Some (IPDoc us c seen, expiry) \<and> now w < expiry"
  then have a: "kv w (ipKey ip) = Some (IPDoc us c seen, expiry)" and b: "now w < expiry"
    by simp_all
  from trackIPAddress_step [OF a b, of uid]
  show "\<exists>r. fst (trackIPAddress ip uid w) = Inr r"
    and "\<exists>us' c' seen' expiry'.
                kv (snd (trackIPAddress ip uid w)) (ipKey ip) = Some (IPDoc us' c' seen', expiry')
              \<and> c \<le> c' \<and> (distinct us \<longrightarrow> distinct us') \<and> (uid \<in> set us \<longrightarrow> us' = us)
              \<and> set us \<subseteq> set us' \<and> now w < expiry'"
    by blast+
qed

theorem C9_witness:
  "fst (trackCalls ''10.0.0.1'' sixCalls quietWorld) =
     [Inr \<lparr>suspicious = False, ipReason = None\<rparr>, Inr \<lparr>suspicious = False, ipReason = None\<rparr>,
      Inr \<lparr>suspicious = False, ipReason = None\<rparr>, Inr \<lparr>suspicious = False, ipReason = None\<rparr>,
      Inr \<lparr>suspicious = False, ipReason = None\<rparr>,
      Inr \<lparr>suspicious = True, ipReason = Some ''Multiple users (6) from same IP''\<rparr>]
   \<and> kv trackedWorld (ipKey ''10.0.0.1'') = Some (IPDoc [''u1'', ''u2''] 2 2000, 86402000)
   \<and> now trackedWorld < 86402000
   \<and> (\<exists>r. fst (trackIPAddress ''10.0.0.1'' ''u1'' trackedWorld) = Inr r)
   \<and> kv (snd (trackIPAddress ''10.0.0.1'' ''u1'' trackedWorld)) (ipKey ''10.0.0.1'')
       = Some (IPDoc [''u1'', ''u2''] 3 3000, 86403000)"
proof -
  note inst = C9_trackIPAddress [where w = quietWorld and ip = "''10.0.0.1''" and calls = sixCalls
      and ?t0.0 = 0]
  have h1: "kv quietWorld (ipKey ''10.0.0.1'') = None \<and> True \<notin> set (faults quietWorld)
      \<and> distinct (map fst sixCalls)
      \<and> (\<forall>c \<in> set sixCalls. 0 \<le> snd c \<and> snd c < 0 + 86400000)"
    by (simp add: quietWorld_def sixCalls_def)
  from inst h1 have "fst (trackCalls ''10.0.0.1'' sixCalls quietWorld)
      = map (\<lambda>i. Inr (ipVerdict (i + 1))) [0..<length sixCalls]" by blast
  moreover have "length sixCalls = Suc (Suc (Suc (Suc (Suc (Suc 0)))))" by (simp add: sixCalls_def)
  ultimately have seq: "fst (trackCalls ''10.0.0.1'' sixCalls quietWorld) =
     [Inr \<lparr>suspicious = False, ipReason = None\<rparr>, Inr \<lparr>suspicious = False, ipReason = None\<rparr>,
      Inr \<lparr>suspicious = False, ipReason = None\<rparr>, Inr \<lparr>suspicious = False, ipReason = None\<rparr>,
      Inr \<lparr>suspicious = False, ipReason = None\<rparr>,
      Inr \<lparr>suspicious = True, ipReason = Some ''Multiple users (6) from same IP''\<rparr>]"
    by (simp add: ipVerdict_def showNat.simps digit_def)
  have h2: "kv trackedWorld (ipKey ''10.0.0.1'') = Some (IPDoc [''u1'', ''u2''] 2 2000, 86402000)"
    "now trackedWorld < 86402000"
    by (simp_all add: trackedWorld_def)
  from C9_trackIPAddress [where w = trackedWorld and ip = "''10.0.0.1''" and uid = "''u1''"] h2
  have ex: "\<exists>r. fst (trackIPAddress ''10.0.0.1'' ''u1'' trackedWorld) = Inr r" by blast
  have nf: "True \<notin> set (faults trackedWorld)" by (simp add: trackedWorld_def)
  have lv: "live trackedWorld (ipKey ''10.0.0.1'') = None \<and> [''u1'', ''u2''] = [] \<and> (2::nat) = 0
         \<or> (\<exists>seen. live trackedWorld (ipKey ''10.0.0.1'') = Some (IPDoc [''u1'', ''u2''] 2 seen))"
    by (simp add: live_def trackedWorld_def)
  have "kv (snd (trackIPAddress ''10.0.0.1'' ''u1'' trackedWorld)) (ipKey ''10.0.0.1'')
       = Some (IPDoc [''u1'', ''u2''] 3 3000, 86403000)"
    by (simp add: trackIPAddress_ok [OF nf lv]) (simp add: trackedWorld_def)
  with seq h2 ex show ?thesis by simp
qed

section \<open>Risk scorer\<close>

lemma sameData_refl [simp]: "sameData w w" by (simp add: sameData_def)

lemma sameData_trans: "sameData w w' \<Longrightarrow> sameData w' w'' \<Longrightarrow> sameData w w''"
  by (auto simp: sameData_def)

lemma readonly_return [intro!, simp]: "readonly (io_return a)"
  by (simp add: readonly_def io_return_def)

lemma readonly_date_now [intro!, simp]: "readonly date_now"
  by (simp add: readonly_def date_now_def)

lemma readonly_await [intro!, simp]: "readonly (await_read q)"
  by (auto simp: readonly_def await_read_def sameData_def split: list.splits)

lemma readonly_bind [intro!]:
  "readonly m \<Longrightarrow> (\<And>a. readonly (f a)) \<Longrightarrow> readonly (io_bind m f)"
  unfolding readonly_def io_bind_def
  by (auto split: prod.splits sum.splits) (metis sameData_trans snd_conv)+

lemma readonlyD: "readonly m \<Longrightarrow> m w = (r, w') \<Longrightarrow> sameData w w'"
  by (metis readonly_def snd_conv)

lemma readonly_checkDuplicate: "readonly (checkDuplicate eid uid amount pid)"
  by (auto simp: checkDuplicate_def findByExternalId_def findOne_def Let_def)

lemma readonly_checkRateLimit: "readonly (checkRateLimit uid)"
  by (auto simp: checkRateLimit_def countDocuments_def Let_def)

lemma readonly_checkCompletionCooldown: "readonly (checkCompletionCooldown uid)"
  by (auto simp: checkCompletionCooldown_def findOneSorted_def Let_def split: option.splits)

lemma readonly_analyzeUserActivity: "readonly (analyzeUserActivity uid)"
  by (auto simp: analyzeUserActivity_def findSorted_def Let_def)

lemma readonly_calculateRiskScore: "readonly (calculateRiskScore uid)"
  by (auto simp: calculateRiskScore_def findUserById_def intro!: readonly_analyzeUserActivity)

lemma returns_return [intro!, simp]: "returns (io_return a)"
  by (simp add: returns_def io_return_def)

lemma returns_date_now [intro!, simp]: "returns date_now"
  by (simp add: returns_def date_now_def)

lemma returns_await [intro!, simp]: "returns (await_read q)"
  by (simp add: returns_def await_read_ok advance_faults)

lemma returns_bind [intro!]:
  "returns m \<Longrightarrow> (\<And>a. returns (f a)) \<Longrightarrow> returns (io_bind m f)"
  unfolding returns_def io_bind_def
  by (auto split: prod.splits sum.splits)

lemma returnsD:
  "returns m \<Longrightarrow> True \<notin> set (faults w) \<Longrightarrow>
     \<exists>a w'. m w = (Inr a, w') \<and> True \<notin> set (faults w')"
  by (metis returns_def prod.collapse)

lemma returns_checkDuplicate: "returns (checkDuplicate eid uid amount pid)"
  by (auto simp: checkDuplicate_def findByExternalId_def findOne_def Let_def)

lemma returns_checkRateLimit: "returns (checkRateLimit uid)"
  by (auto simp: checkRateLimit_def countDocuments_def Let_def)

lemma returns_checkCompletionCooldown: "returns (checkCompletionCooldown uid)"
  by (auto simp: checkCompletionCooldown_def findOneSorted_def Let_def split: option.splits)

lemma returns_analyzeUserActivity: "returns (analyzeUserActivity uid)"
  by (auto simp: analyzeUserActivity_def findSorted_def Let_def)

lemma returns_calculateRiskScore: "returns (calculateRiskScore uid)"
  by (auto simp: calculateRiskScore_def findUserById_def intro!: returns_analyzeUserActivity)

lemma flagUserForReview_ok:
  "True \<notin> set (faults w) \<Longrightarrow>
     flagUserForReview uid why w
       = (Inr (), (advance w)\<lparr>kv := (kv w)(flagKey uid \<mapsto> (FlagDoc uid why (now w), now w + 604800000))\<rparr>)"
  by (simp add: flagUserForReview_def io_catch_def io_bind_def date_now_def redis_setex_ok flagKey_def)

lemma returns_flagUserForReview: "returns (flagUserForReview uid why)"
  unfolding returns_def by (auto simp: flagUserForReview_ok advance_faults)

lemma returns_checkForFraud: "returns (checkForFraud uid eid amount pid)"
  unfolding checkForFraud_def Let_def
  by (intro returns_bind returns_checkDuplicate returns_checkRateLimit
      returns_checkCompletionCooldown returns_calculateRiskScore returns_analyzeUserActivity)
     (auto intro: returns_flagUserForReview)

lemma checkDuplicate_Inr:
  assumes "checkDuplicate eid uid amount pid w = (Inr dc, w')"
  shows "(isDuplicate dc \<longrightarrow> dupReason dc \<noteq> None)
       \<and> ((\<exists>t \<in> set (ledger w). externalTransactionId t = eid) \<longrightarrow>
            isDuplicate dc \<and> dupReason dc = Some ''Transaction ID already exists'')"
proof -
  from assms obtain existing w1 where
    f: "findByExternalId eid w = (Inr existing, w1)" and
    r: "(if existing \<noteq> None
         then io_return \<lparr>isDuplicate = True, dupReason = Some ''Transaction ID already exists''\<rparr>
         else io_bind date_now (\<lambda>t. let oneMinuteAgo = t - 60 * 1000 in
           io_bind (findOne (\<lambda>r. userId r = uid \<and> providerId r = pid \<and>
                               convertedAmount r = amount \<and> createdAt r \<ge> oneMinuteAgo))
           (\<lambda>recentSimilar.
             if recentSimilar \<noteq> None
             then io_return \<lparr>isDuplicate = True,
                              dupReason = Some ''Similar transaction within 1 minute''\<rparr>
             else io_return \<lparr>isDuplicate = False, dupReason = None\<rparr>))) w1 = (Inr dc, w')"
    unfolding checkDuplicate_def by (blast dest: io_bind_Inr)
  from f have ex: "existing = find (\<lambda>t. externalTransactionId t = eid) (ledger w)"
    by (auto simp: findByExternalId_def dest: await_read_Inr)
  have one: "(\<exists>t \<in> set (ledger w). externalTransactionId t = eid) \<longrightarrow> existing \<noteq> None"
    by (auto simp: ex find_None_iff)
  show ?thesis
  proof (cases "existing = None")
    case False
    with r show ?thesis by (auto simp: io_return_def)
  next
    case True
    with r one show ?thesis
      by (auto simp: io_return_def Let_def dest!: io_bind_Inr split: if_splits)
  qed
qed

lemma checkRateLimit_reason:
  "checkRateLimit uid w = (Inr rl, w') \<Longrightarrow> \<not> allowed rl \<Longrightarrow> reason rl \<noteq> None"
  by (auto simp: checkRateLimit_def io_return_def Let_def dest!: io_bind_Inr split: if_splits)

lemma checkCompletionCooldown_reason:
  "checkCompletionCooldown uid w = (Inr cd, w') \<Longrightarrow> \<not> allowed cd \<Longrightarrow> reason cd \<noteq> None"
  by (auto simp: checkCompletionCooldown_def io_return_def Let_def dest!: io_bind_Inr
      split: if_splits option.splits)

lemma calculateRiskScore_Inr:
  "calculateRiskScore uid w = (Inr s, w') \<Longrightarrow> 0 \<le> s \<and> s \<le> 100"
  by (auto simp: calculateRiskScore_def io_return_def dest!: io_bind_Inr
      intro: riskScoreOf_range [THEN conjunct1] riskScoreOf_range [THEN conjunct2])

lemma checkForFraud_alt:
  "checkForFraud uid eid amount pid =
     io_bind (checkDuplicate eid uid amount pid) (\<lambda>dc.
     io_bind (checkRateLimit uid) (\<lambda>rl.
     io_bind (checkCompletionCooldown uid) (\<lambda>cd.
     io_bind (calculateRiskScore uid) (\<lambda>urs.
     io_bind (analyzeUserActivity uid) (\<lambda>act.
     io_bind (if action (fraudVerdict dc rl cd urs act) = Block
              then flagUserForReview uid (joinWith '', '' (reasons (fraudVerdict dc rl cd urs act)))
              else io_return ()) (\<lambda>_.
       io_return (fraudVerdict dc rl cd urs act)))))))"
  by (simp only: checkForFraud_def fraudVerdict_def Let_def FraudCheckResult.select_convs)

lemma checkForFraud_Inr:
  assumes "checkForFraud uid eid amount pid w = (Inr d, w')"
  shows "\<exists>dc rl cd urs act w1 w2 w3 w4 w5.
     checkDuplicate eid uid amount pid w = (Inr dc, w1)
     \<and> checkRateLimit uid w1 = (Inr rl, w2)
     \<and> checkCompletionCooldown uid w2 = (Inr cd, w3)
     \<and> calculateRiskScore uid w3 = (Inr urs, w4)
     \<and> analyzeUserActivity uid w4 = (Inr act, w5)
     \<and> d = fraudVerdict dc rl cd urs act
     \<and> (if action d = Block
        then flagUserForReview uid (joinWith '', '' (reasons d)) w5 = (Inr (), w')
        else w' = w5)"
  using assms unfolding checkForFraud_alt
  apply -
  apply (drule io_bind_Inr, elim exE conjE)+
  subgoal for dc w1 rl w2 cd w3 urs w4 act w5 u w6
    apply (rule exI [of _ dc], rule exI [of _ rl], rule exI [of _ cd], rule exI [of _ urs],
        rule exI [of _ act], rule exI [of _ w1], rule exI [of _ w2], rule exI [of _ w3],
        rule exI [of _ w4], rule exI [of _ w5])
    apply (auto simp: io_return_def split: if_splits)
    done
  done

lemma fraudVerdict_duplicate:
  assumes "isDuplicate dc"
  shows "100 \<le> riskScore (fraudVerdict dc rl cd urs act)
       \<and> action (fraudVerdict dc rl cd urs act) = Block
       \<and> isFraudulent (fraudVerdict dc rl cd urs act)
       \<and> (\<forall>r. dupReason dc = Some r \<longrightarrow> r \<in> set (reasons (fraudVerdict dc rl cd urs act)))"
  using assms
  by (auto simp: fraudVerdict_def Let_def HIGH_RISK_THRESHOLD_def pushReason_def
      split: option.splits)

lemma checkForFraud_fst:
  "fst (checkForFraud uid eid amount pid w) = Inr d \<Longrightarrow>
     checkForFraud uid eid amount pid w = (Inr d, snd (checkForFraud uid eid amount pid w))"
  by (metis prod.collapse)

lemma replay_result:
  "fst (checkForFraud ''u1'' ''tx1'' 500 ''p1'' replayWorld) = Inr
     \<lparr>isFraudulent = True,
      reasons = [''Transaction ID already exists'', ''Cooldown period: 30s between completions''],
      riskScore = 130, action = Block\<rparr>"
  by (simp add: checkForFraud_def checkDuplicate_def checkRateLimit_def checkCompletionCooldown_def
      calculateRiskScore_def analyzeUserActivity_def flagUserForReview_def findByExternalId_def
      findOne_def countDocuments_def findSorted_def findOneSorted_def findUserById_def
      io_bind_def io_return_def io_catch_def await_read_def date_now_def redis_setex_def
      replayWorld_def Let_def sortNewestFirst_def activityPattern_def riskScoreOf_def
      pushReason_def RATE_LIMIT_HOUR_def RATE_LIMIT_DAY_def MIN_COMPLETION_TIME_def
      HIGH_RISK_THRESHOLD_def MEDIUM_RISK_THRESHOLD_def showNat_30)

lemma fraudVerdict_range:
  "0 \<le> urs \<Longrightarrow> urs \<le> 100 \<Longrightarrow>
     0 \<le> riskScore (fraudVerdict dc rl cd urs act) \<and> riskScore (fraudVerdict dc rl cd urs act) \<le> 180"
  by (auto simp: fraudVerdict_def Let_def)

text \<open>
  Claim C1. When the ledger holds a record with the external transaction id of the call
  and a status other than failed, every decision \<^verbatim>\<open>checkForFraud\<close> returns has
  \<open>action = block\<close> and \<open>isFraudulent = true\<close> (its score is at least 100 and its reasons
  include \<^verbatim>\<open>Transaction ID already exists\<close>), whatever the rate limit, the cooldown, the
  activity and the account are; and the call does return a decision whenever no
  collaborator call throws.
\<close>

theorem C1_duplicate_id_blocks:
  assumes "t \<in> set (ledger w)" and "externalTransactionId t = eid" and "status t \<noteq> Failed"
  shows "(\<forall>d. fst (checkForFraud uid eid amount pid w) = Inr d \<longrightarrow>
            action d = Block \<and> isFraudulent d \<and> 100 \<le> riskScore d
          \<and> ''Transaction ID already exists'' \<in> set (reasons d))
       \<and> (True \<notin> set (faults w) \<longrightarrow> (\<exists>d. fst (checkForFraud uid eid amount pid w) = Inr d))"
proof (intro conjI allI impI)
  fix d assume "fst (checkForFraud uid eid amount pid w) = Inr d"
  from checkForFraud_Inr [OF checkForFraud_fst [OF this]] obtain dc rl cd urs act w1 where
    dup: "checkDuplicate eid uid amount pid w = (Inr dc, w1)" and
    d: "d = fraudVerdict dc rl cd urs act" by blast
  from assms(1,2) have "\<exists>t \<in> set (ledger w). externalTransactionId t = eid" by blast
  with checkDuplicate_Inr [OF dup]
  have "isDuplicate dc" "dupReason dc = Some ''Transaction ID already exists''" by simp_all
  with fraudVerdict_duplicate [of dc rl cd urs act]
  show "action d = Block" "isFraudulent d" "100 \<le> riskScore d"
    "''Transaction ID already exists'' \<in> set (reasons d)"
    by (simp_all add: d)
next
  assume "True \<notin> set (faults w)"
  from returnsD [OF returns_checkForFraud this, of uid eid amount pid]
  show "\<exists>d. fst (checkForFraud uid eid amount pid w) = Inr d" by auto
qed

theorem C1_witness:
  "(case fst (checkForFraud ''u1'' ''tx1'' 500 ''p1'' replayWorld) of
      Inr d \<Rightarrow> action d = Block \<and> isFraudulent d \<and> 100 \<le> riskScore d
    | Inl e \<Rightarrow> False)"
proof -
  have h: "hd (ledger replayWorld) \<in> set (ledger replayWorld)"
    "externalTransactionId (hd (ledger replayWorld)) = ''tx1''"
    "status (hd (ledger replayWorld)) \<noteq> Failed"
    by (simp_all add: replayWorld_def)
  have nf: "True \<notin> set (faults replayWorld)" by (simp add: replayWorld_def)
  from C1_duplicate_id_blocks [OF h, of "''u1''" 500 "''p1''"] nf
  show ?thesis by (auto split: sum.splits)
qed

text \<open>
  Claim C2. The score of \<^verbatim>\<open>calculateRiskScore\<close> lies in \<open>[0, 100]\<close> (lemma
  \<open>calculateRiskScore_Inr\<close>), but \<^verbatim>\<open>checkForFraud\<close> adds 100, 50 and 30 for its three checks
  and takes the maximum with that score without the \<^verbatim>\<open>Math.min(riskScore, 100)\<close> of
  \<^verbatim>\<open>calculateRiskScore\<close>: on the replay of an external id ten seconds after the first
  delivery it returns \<open>riskScore = 130\<close>.
\<close>

theorem C2_riskScore_above_100:
  "fst (checkForFraud ''u1'' ''tx1'' 500 ''p1'' replayWorld) = Inr
     \<lparr>isFraudulent = True,
      reasons = [''Transaction ID already exists'', ''Cooldown period: 30s between completions''],
      riskScore = 130, action = Block\<rparr>"
  by (rule replay_result)

lemma quietReads_return [intro!, simp]: "quietReads (io_return a)"
  by (simp add: quietReads_def io_return_def)

lemma quietReads_date_now [intro!, simp]: "quietReads date_now"
  by (simp add: quietReads_def date_now_def)

lemma quietReads_await [intro!, simp]: "quietReads (await_read q)"
  unfolding quietReads_def
proof (intro allI impI)
  fix w a w' assume h: "await_read q w = (Inr a, w')"
  show "\<exists>pre. faults w = pre @ faults w' \<and> True \<notin> set pre"
  proof (cases "faults w")
    case Nil
    with h show ?thesis by (auto simp: await_read_def)
  next
    case (Cons f fs)
    with h have "faults w = [False] @ faults w'"
      by (auto simp: await_read_def split: if_splits)
    then show ?thesis by (intro exI [of _ "[False]"]) simp
  qed
qed

lemma quietReads_bind [intro!]:
  assumes "quietReads m" and "\<And>a. quietReads (f a)"
  shows "quietReads (io_bind m f)"
  unfolding quietReads_def
proof (intro allI impI)
  fix w b w'' assume "io_bind m f w = (Inr b, w'')"
  then obtain a w' where 1: "m w = (Inr a, w')" and 2: "f a w' = (Inr b, w'')"
    by (blast dest: io_bind_Inr)
  from assms(1) 1 obtain p1 where p1: "faults w = p1 @ faults w'" "True \<notin> set p1"
    unfolding quietReads_def by blast
  from assms(2) [of a] 2 obtain p2 where p2: "faults w' = p2 @ faults w''" "True \<notin> set p2"
    unfolding quietReads_def by blast
  from p1 p2 have "faults w = (p1 @ p2) @ faults w''" "True \<notin> set (p1 @ p2)" by simp_all
  then show "\<exists>pre. faults w = pre @ faults w'' \<and> True \<notin> set pre" by blast
qed

lemma quietReads_checkDuplicate: "quietReads (checkDuplicate eid uid amount pid)"
  by (auto simp: checkDuplicate_def findByExternalId_def findOne_def Let_def)

lemma quietReads_checkRateLimit: "quietReads (checkRateLimit uid)"
  by (auto simp: checkRateLimit_def countDocuments_def Let_def)

lemma quietReads_checkCompletionCooldown: "quietReads (checkCompletionCooldown uid)"
  by (auto simp: checkCompletionCooldown_def findOneSorted_def Let_def split: option.splits)

lemma quietReads_analyzeUserActivity: "quietReads (analyzeUserActivity uid)"
  by (auto simp: analyzeUserActivity_def findSorted_def Let_def)

lemma quietReads_calculateRiskScore: "quietReads (calculateRiskScore uid)"
  by (auto simp: calculateRiskScore_def findUserById_def intro!: quietReads_analyzeUserActivity)

lemma quietReads_fraudChecks: "quietReads (fraudChecks uid eid amount pid)"
  unfolding fraudChecks_def
  by (intro quietReads_bind quietReads_checkDuplicate quietReads_checkRateLimit
      quietReads_checkCompletionCooldown quietReads_calculateRiskScore
      quietReads_analyzeUserActivity quietReads_return)

lemma readonly_fraudChecks: "readonly (fraudChecks uid eid amount pid)"
  unfolding fraudChecks_def
  by (intro readonly_bind readonly_checkDuplicate readonly_checkRateLimit
      readonly_checkCompletionCooldown readonly_calculateRiskScore
      readonly_analyzeUserActivity readonly_return)

lemma io_bind_assoc: "io_bind (io_bind m f) g = io_bind m (\<lambda>a. io_bind (f a) g)"
  by (rule ext) (auto simp: io_bind_def split: prod.splits sum.splits)

lemma checkForFraud_checks:
  "checkForFraud uid eid amount pid =
     io_bind (fraudChecks uid eid amount pid) (\<lambda>d.
     io_bind (if action d = Block then flagUserForReview uid (joinWith '', '' (reasons d))
              else io_return ()) (\<lambda>_.
       io_return d))"
  by (simp add: checkForFraud_alt fraudChecks_def io_bind_assoc)

lemma flagUserForReview_cases:
  "flagUserForReview uid why w =
     (Inr (),
      if \<exists>fs. faults w = True # fs then advance w
      else (advance w)\<lparr>kv := (kv w)(flagKey uid \<mapsto> (FlagDoc uid why (now w), now w + 604800000))\<rparr>)"
  by (cases "faults w")
     (auto simp: flagUserForReview_def io_catch_def io_bind_def date_now_def redis_setex_def
        io_return_def flagKey_def advance_def)

lemma fraudChecks_of_checkForFraud:
  assumes "fst (checkForFraud uid eid amount pid w) = Inr d"
  shows "\<exists>w5. fraudChecks uid eid amount pid w = (Inr d, w5)"
proof -
  from assms have "checkForFraud uid eid amount pid w
      = (Inr d, snd (checkForFraud uid eid amount pid w))" by (rule checkForFraud_fst)
  then obtain d0 w5 w6 u where c: "fraudChecks uid eid amount pid w = (Inr d0, w5)"
    and r: "io_return d0 w6 = (Inr d, snd (checkForFraud uid eid amount pid w))"
    unfolding checkForFraud_checks by (blast dest: io_bind_Inr)
  from r have "d0 = d" by (simp add: io_return_def)
  with c show ?thesis by blast
qed

lemma checkForFraud_block_run:
  assumes "fraudChecks uid eid amount pid w = (Inr d, w5)" and "action d = Block"
  shows "checkForFraud uid eid amount pid w
           = (Inr d, snd (flagUserForReview uid (joinWith '', '' (reasons d)) w5))"
  using assms
  by (simp add: checkForFraud_checks io_bind_def flagUserForReview_cases io_return_def)

lemma replay_checks:
  "fst (fraudChecks ''u1'' ''tx1'' 500 ''p1'' replayWorld) = Inr
     \<lparr>isFraudulent = True,
      reasons = [''Transaction ID already exists'', ''Cooldown period: 30s between completions''],
      riskScore = 130, action = Block\<rparr>"
  "faults (snd (fraudChecks ''u1'' ''tx1'' 500 ''p1'' replayWorld)) = []"
  by (simp_all add: fraudChecks_def fraudVerdict_def checkDuplicate_def checkRateLimit_def
      checkCompletionCooldown_def
      calculateRiskScore_def analyzeUserActivity_def findByExternalId_def
      findOne_def countDocuments_def findSorted_def findOneSorted_def findUserById_def
      io_bind_def io_return_def await_read_def date_now_def
      replayWorld_def Let_def sortNewestFirst_def activityPattern_def riskScoreOf_def
      pushReason_def RATE_LIMIT_HOUR_def RATE_LIMIT_DAY_def MIN_COMPLETION_TIME_def
      HIGH_RISK_THRESHOLD_def MEDIUM_RISK_THRESHOLD_def showNat_30)

lemma outage_checks:
  "fst (fraudChecks ''u1'' ''tx1'' 500 ''p1'' outageWorld) = Inr
     \<lparr>isFraudulent = True,
      reasons = [''Transaction ID already exists'', ''Cooldown period: 30s between completions''],
      riskScore = 130, action = Block\<rparr>"
  "faults (snd (fraudChecks ''u1'' ''tx1'' 500 ''p1'' outageWorld)) = [True]"
  by (simp_all add: fraudChecks_def fraudVerdict_def checkDuplicate_def checkRateLimit_def
      checkCompletionCooldown_def
      calculateRiskScore_def analyzeUserActivity_def findByExternalId_def
      findOne_def countDocuments_def findSorted_def findOneSorted_def findUserById_def
      io_bind_def io_return_def await_read_def date_now_def
      replayWorld_def outageWorld_def Let_def sortNewestFirst_def activityPattern_def
      riskScoreOf_def
      pushReason_def RATE_LIMIT_HOUR_def RATE_LIMIT_DAY_def MIN_COMPLETION_TIME_def
      HIGH_RISK_THRESHOLD_def MEDIUM_RISK_THRESHOLD_def showNat_30)

text \<open>
  Claim C3, as amended. \<^verbatim>\<open>checkForFraud\<close> is its checks (\<open>fraudChecks\<close>) followed, on a block
  decision, by the write of the flag, and every decision it returns is the decision of the
  checks. Whenever the checks decide \<open>block\<close>, leaving the world \<open>w5\<close> (same store and instant,
  the outcomes consumed so far none of them a throw): \<^verbatim>\<open>checkForFraud\<close> returns that block
  decision as a success whatever the write does; when the write throws (the next outcome
  of \<open>w5\<close> is a throw) the store is left unchanged; and when the write does not throw the
  store holds the flag of the user (the joined reasons, the instant of the call) with an
  expiry 7 days later.
\<close>

theorem C3_block_attempts_flag:
  "checkForFraud uid eid amount pid =
     io_bind (fraudChecks uid eid amount pid) (\<lambda>d.
     io_bind (if action d = Block then flagUserForReview uid (joinWith '', '' (reasons d))
              else io_return ()) (\<lambda>_.
       io_return d))
   \<and> (\<forall>d. fst (checkForFraud uid eid amount pid w) = Inr d \<longrightarrow>
         (\<exists>w5. fraudChecks uid eid amount pid w = (Inr d, w5)))
   \<and> (\<forall>d w5. fraudChecks uid eid amount pid w = (Inr d, w5) \<and> action d = Block \<longrightarrow>
         fst (checkForFraud uid eid amount pid w) = Inr d
       \<and> kv w5 = kv w \<and> now w5 = now w
       \<and> (\<exists>pre. faults w = pre @ faults w5 \<and> True \<notin> set pre)
       \<and> ((\<exists>fs. faults w5 = True # fs) \<longrightarrow>
            kv (snd (checkForFraud uid eid amount pid w)) = kv w)
       \<and> (\<not> (\<exists>fs. faults w5 = True # fs) \<longrightarrow>
            kv (snd (checkForFraud uid eid amount pid w))
              = (kv w)(flagKey uid \<mapsto>
                  (FlagDoc uid (joinWith '', '' (reasons d)) (now w), now w + 604800000))))"
proof -
  have B: "\<forall>d w5. fraudChecks uid eid amount pid w = (Inr d, w5) \<and> action d = Block \<longrightarrow>
         fst (checkForFraud uid eid amount pid w) = Inr d
       \<and> kv w5 = kv w \<and> now w5 = now w
       \<and> (\<exists>pre. faults w = pre @ faults w5 \<and> True \<notin> set pre)
       \<and> ((\<exists>fs. faults w5 = True # fs) \<longrightarrow>
            kv (snd (checkForFraud uid eid amount pid w)) = kv w)
       \<and> (\<not> (\<exists>fs. faults w5 = True # fs) \<longrightarrow>
            kv (snd (checkForFraud uid eid amount pid w))
              = (kv w)(flagKey uid \<mapsto>
                  (FlagDoc uid (joinWith '', '' (reasons d)) (now w), now w + 604800000)))"
  proof (intro allI impI)
    fix d w5
    assume h: "fraudChecks uid eid amount pid w = (Inr d, w5) \<and> action d = Block"
    then have fc: "fraudChecks uid eid amount pid w = (Inr d, w5)" and blk: "action d = Block"
      by simp_all
    note run = checkForFraud_block_run [OF fc blk]
    from readonlyD [OF readonly_fraudChecks fc] have sd: "kv w5 = kv w" "now w5 = now w"
      by (simp_all add: sameData_def)
    from quietReads_fraudChecks fc
    have pre: "\<exists>pre. faults w = pre @ faults w5 \<and> True \<notin> set pre"
      unfolding quietReads_def by blast
    show "fst (checkForFraud uid eid amount pid w) = Inr d
       \<and> kv w5 = kv w \<and> now w5 = now w
       \<and> (\<exists>pre. faults w = pre @ faults w5 \<and> True \<notin> set pre)
       \<and> ((\<exists>fs. faults w5 = True # fs) \<longrightarrow>
            kv (snd (checkForFraud uid eid amount pid w)) = kv w)
       \<and> (\<not> (\<exists>fs. faults w5 = True # fs) \<longrightarrow>
            kv (snd (checkForFraud uid eid amount pid w))
              = (kv w)(flagKey uid \<mapsto>
                  (FlagDoc uid (joinWith '', '' (reasons d)) (now w), now w + 604800000)))"
      using sd pre by (simp add: run flagUserForReview_cases)
  qed
  from checkForFraud_checks [of uid eid amount pid] fraudChecks_of_checkForFraud [of uid eid amount pid w] B
  show ?thesis by blast
qed

theorem C3_witness:
  "faults (snd (fraudChecks ''u1'' ''tx1'' 500 ''p1'' outageWorld)) = [True]
   \<and> fst (checkForFraud ''u1'' ''tx1'' 500 ''p1'' outageWorld) = Inr
       \<lparr>isFraudulent = True,
        reasons = [''Transaction ID already exists'', ''Cooldown period: 30s between completions''],
        riskScore = 130, action = Block\<rparr>
   \<and> kv (snd (checkForFraud ''u1'' ''tx1'' 500 ''p1'' outageWorld)) = kv outageWorld
   \<and> faults (snd (fraudChecks ''u1'' ''tx1'' 500 ''p1'' replayWorld)) = []
   \<and> fst (checkForFraud ''u1'' ''tx1'' 500 ''p1'' replayWorld) = Inr
       \<lparr>isFraudulent = True,
        reasons = [''Transaction ID already exists'', ''Cooldown period: 30s between completions''],
        riskScore = 130, action = Block\<rparr>
   \<and> kv (snd (checkForFraud ''u1'' ''tx1'' 500 ''p1'' replayWorld)) (flagKey ''u1'')
       = Some (FlagDoc ''u1''
           ''Transaction ID already exists, Cooldown period: 30s between completions'' 1010000,
           605810000)"
proof -
  let ?V = "\<lparr>isFraudulent = True,
      reasons = [''Transaction ID already exists'', ''Cooldown period: 30s between completions''],
      riskScore = 130, action = Block\<rparr>"
  have oc: "fraudChecks ''u1'' ''tx1'' 500 ''p1'' outageWorld
             = (Inr ?V, snd (fraudChecks ''u1'' ''tx1'' 500 ''p1'' outageWorld))"
    by (metis outage_checks(1) prod.collapse)
  have rc: "fraudChecks ''u1'' ''tx1'' 500 ''p1'' replayWorld
             = (Inr ?V, snd (fraudChecks ''u1'' ''tx1'' 500 ''p1'' replayWorld))"
    by (metis replay_checks(1) prod.collapse)
  have blk: "action ?V = Block" by simp
  from C3_block_attempts_flag [of "''u1''" "''tx1''" 500 "''p1''" outageWorld] oc blk
  have 1: "fst (checkForFraud ''u1'' ''tx1'' 500 ''p1'' outageWorld) = Inr ?V"
    and 2: "(\<exists>fs. faults (snd (fraudChecks ''u1'' ''tx1'' 500 ''p1'' outageWorld)) = True # fs) \<longrightarrow>
            kv (snd (checkForFraud ''u1'' ''tx1'' 500 ''p1'' outageWorld)) = kv outageWorld"
    by blast+
  from C3_block_attempts_flag [of "''u1''" "''tx1''" 500 "''p1''" replayWorld] rc blk
  have 3: "fst (checkForFraud ''u1'' ''tx1'' 500 ''p1'' replayWorld) = Inr ?V"
    and 4: "\<not> (\<exists>fs. faults (snd (fraudChecks ''u1'' ''tx1'' 500 ''p1'' replayWorld)) = True # fs) \<longrightarrow>
            kv (snd (checkForFraud ''u1'' ''tx1'' 500 ''p1'' replayWorld))
              = (kv replayWorld)(flagKey ''u1'' \<mapsto>
                  (FlagDoc ''u1'' (joinWith '', '' (reasons ?V)) (now replayWorld),
                   now replayWorld + 604800000))"
    by blast+
  have flds: "kv replayWorld = Map.empty" "now replayWorld = 1010000"
    by (simp_all add: replayWorld_def)
  from 2 have k2: "kv (snd (checkForFraud ''u1'' ''tx1'' 500 ''p1'' outageWorld)) = kv outageWorld"
    by (simp add: outage_checks(2))
  from 4 have k4: "kv (snd (checkForFraud ''u1'' ''tx1'' 500 ''p1'' replayWorld)) (flagKey ''u1'')
       = Some (FlagDoc ''u1''
           ''Transaction ID already exists, Cooldown period: 30s between completions'' 1010000,
           605810000)"
    by (simp add: replay_checks(2) flds)
  from 1 k2 3 k4 show ?thesis by (simp add: outage_checks(2) replay_checks(2))
qed

text \<open>
  The claim as stated fails when the write of the flag throws: \<^verbatim>\<open>flagUserForReview\<close>
  catches the error, \<^verbatim>\<open>checkForFraud\<close> returns the block decision as a success, the store
  stays empty and the user is reported as not flagged.
\<close>

theorem C3_counterexample:
  "fst (checkForFraud ''u1'' ''tx1'' 500 ''p1'' outageWorld) = Inr
     \<lparr>isFraudulent = True,
      reasons = [''Transaction ID already exists'', ''Cooldown period: 30s between completions''],
      riskScore = 130, action = Block\<rparr>
   \<and> kv (snd (checkForFraud ''u1'' ''tx1'' 500 ''p1'' outageWorld)) = Map.empty
   \<and> fst (isUserFlagged ''u1'' (snd (checkForFraud ''u1'' ''tx1'' 500 ''p1'' outageWorld)))
       = Inr False"
  by (simp add: checkForFraud_def checkDuplicate_def checkRateLimit_def checkCompletionCooldown_def
      calculateRiskScore_def analyzeUserActivity_def flagUserForReview_def findByExternalId_def
      findOne_def countDocuments_def findSorted_def findOneSorted_def findUserById_def
      io_bind_def io_return_def io_catch_def await_read_def date_now_def redis_setex_def
      replayWorld_def outageWorld_def Let_def sortNewestFirst_def activityPattern_def
      riskScoreOf_def pushReason_def RATE_LIMIT_HOUR_def RATE_LIMIT_DAY_def
      MIN_COMPLETION_TIME_def HIGH_RISK_THRESHOLD_def MEDIUM_RISK_THRESHOLD_def showNat_30
      isUserFlagged_def redis_get_def live_def)

end
